theory Spec2Isabelle
  imports Main "HOL-Library.AList" "HOL-Library.Sublist"
begin

section \<open>mhtml2html: a shallow embedding of \<^verbatim>\<open>src/mhtml2html.js\<close>\<close>

text \<open>
  Scope of the model.
  \<^item> A JavaScript string is a \<^typ>\<open>string\<close>: its code units are restricted to \<open>0..255\<close>
    (an archive read as a binary string). A text that \<^verbatim>\<open>decodeURIComponent\<close> decodes to
    code units above 255 has no counterpart in the model.
  \<^item> The objects \<^verbatim>\<open>media\<close>, \<^verbatim>\<open>frames\<close>, \<^verbatim>\<open>headers\<close> and \<^verbatim>\<open>content\<close> are used by the
    source as dictionaries. Their own properties are association lists in insertion
    order. A read \<^verbatim>\<open>obj[k]\<close> with a key taken from the input also finds the members every
    object inherits from \<^verbatim>\<open>Object.prototype\<close> (\<open>get\<close> below); \<^verbatim>\<open>Object.keys\<close> lists the
    keys that are array indices first (\<open>Object_keys\<close> below). The assignment
    \<^verbatim>\<open>obj['__proto__'] = v\<close>, which sets no own property, is outside the model: it is
    an entry of the list like any other.
  \<^item> \<^verbatim>\<open>assert(c, msg)\<close> throws \<^verbatim>\<open>new Error(msg)\<close>; the line counter \<^verbatim>\<open>l\<close> of the parser
    is only interpolated into messages and is left out of them.
  \<^item> Functions of the language runtime and of the two packages the source requires
    (\<^verbatim>\<open>quoted-printable\<close>, \<^verbatim>\<open>base-64\<close>) are parameters, collected in a record.
\<close>

subsection \<open>Strings\<close>

text \<open>\<^verbatim>\<open>/\s/\<close> and \<^verbatim>\<open>String.prototype.trim\<close> on code units below 256.\<close>

definition js_space :: "char \<Rightarrow> bool" where
  "js_space c \<longleftrightarrow>
     c = CHR 0x09 \<or> c = CHR 0x0A \<or> c = CHR 0x0B \<or> c = CHR 0x0C \<or> c = CHR 0x0D \<or>
     c = CHR 0x20 \<or> c = CHR 0xA0"

definition js_trim :: "string \<Rightarrow> string" where
  "js_trim s = rev (dropWhile js_space (rev (dropWhile js_space s)))"

text \<open>The first occurrence of a needle in a text; \<^verbatim>\<open>s.indexOf(t, from)\<close> with \<open>None\<close> for \<open>-1\<close>.\<close>

fun index_in :: "string \<Rightarrow> string \<Rightarrow> nat option" where
  "index_in t [] = (if t = [] then Some 0 else None)"
| "index_in t (c # cs) =
     (if prefix t (c # cs) then Some 0 else map_option Suc (index_in t cs))"

definition indexOf :: "string \<Rightarrow> string \<Rightarrow> nat \<Rightarrow> nat option" where
  "indexOf s t from =
     map_option (\<lambda>k. min from (length s) + k) (index_in t (drop from s))"

definition js_includes :: "string \<Rightarrow> string \<Rightarrow> bool" where
  "js_includes s t \<longleftrightarrow> index_in t s \<noteq> None"

text \<open>\<^verbatim>\<open>s.substring(a, b)\<close> for non-negative arguments: they are swapped when \<open>a > b\<close>.\<close>

definition substring :: "string \<Rightarrow> nat \<Rightarrow> nat \<Rightarrow> string" where
  "substring s a b = take (max a b - min a b) (drop (min a b) s)"

text \<open>\<^verbatim>\<open>s.split(sep)\<close> and \<^verbatim>\<open>xs.join(sep)\<close>.\<close>

lemma index_in_bound: "index_in t s = Some k \<Longrightarrow> k + length t \<le> length s"
proof (induction s arbitrary: k)
  case Nil
  then show ?case by (simp split: if_splits)
next
  case (Cons c cs)
  show ?case
  proof (cases "prefix t (c # cs)")
    case True
    with Cons.prems have "k = 0" by simp
    with True show ?thesis by (auto dest: prefix_length_le)
  next
    case False
    with Cons.prems obtain j where "index_in t cs = Some j" "k = Suc j" by auto
    with Cons.IH show ?thesis by simp
  qed
qed

function split :: "string \<Rightarrow> string \<Rightarrow> string list" where
  "split s sep =
     (if sep = [] then map (\<lambda>c. [c]) s
      else (case index_in sep s of
              None \<Rightarrow> [s]
            | Some k \<Rightarrow> take k s # split (drop (k + length sep) s) sep))"
  by pat_completeness auto
termination
proof (relation "measure (\<lambda>(s, sep). length s)")
  show "wf (measure (\<lambda>(s, sep). length s))" by simp
next
  fix s sep :: string and k
  assume "sep \<noteq> []" "index_in sep s = Some k"
  then have "k + length sep \<le> length s" "0 < length sep"
    by (simp_all add: index_in_bound)
  then have "length (drop (k + length sep) s) < length s"
    by (simp del: length_greater_0_conv)
  then show "((drop (k + length sep) s, sep), (s, sep)) \<in> measure (\<lambda>(s, sep). length s)"
    by simp
qed

declare split.simps [simp del]

fun join :: "string list \<Rightarrow> string \<Rightarrow> string" where
  "join [] sep = []"
| "join [x] sep = x"
| "join (x # y # zs) sep = x @ sep @ join (y # zs) sep"

text \<open>The lower-case form of an ASCII letter.\<close>

definition lower :: "char \<Rightarrow> char" where
  "lower c = (if (65::nat) \<le> of_char c \<and> of_char c \<le> (90::nat) then char_of (of_char c + (32::nat)) else c)"

text \<open>Decimal digits and the number they write.\<close>

definition is_digit :: "char \<Rightarrow> bool" where
  "is_digit c \<longleftrightarrow> (48::nat) \<le> of_char c \<and> of_char c \<le> (57::nat)"

definition digits_value :: "string \<Rightarrow> nat" where
  "digits_value ds = foldl (\<lambda>n c. 10 * n + (of_char c - 48)) 0 ds"

definition digits_int :: "string \<Rightarrow> int" where
  "digits_int ds = foldl (\<lambda>n c. 10 * n + (of_char c - 48)) 0 ds"

subsection \<open>Objects as dictionaries\<close>

text \<open>
  The names of the members every plain object inherits from \<^verbatim>\<open>Object.prototype\<close>. A read
  \<^verbatim>\<open>obj[k]\<close> returns the own property \<open>k\<close>, else the inherited member when \<open>k\<close> is one of
  these names, else \<^verbatim>\<open>undefined\<close> (\<open>None\<close>). An inherited member is a function (for
  \<^verbatim>\<open>__proto__\<close> the prototype object): it is truthy, its \<^verbatim>\<open>typeof\<close> is not
  \<^verbatim>\<open>'undefined'\<close>, and it has none of the properties \<^verbatim>\<open>type\<close>, \<^verbatim>\<open>encoding\<close>, \<^verbatim>\<open>data\<close>.
\<close>

definition Object_prototype :: "string list" where
  "Object_prototype =
     [''constructor'', ''__defineGetter__'', ''__defineSetter__'', ''hasOwnProperty'',
      ''__lookupGetter__'', ''__lookupSetter__'', ''isPrototypeOf'', ''propertyIsEnumerable'',
      ''toString'', ''valueOf'', ''__proto__'', ''toLocaleString'']"

datatype 'a property = Own 'a | Inherited

definition get :: "(string \<times> 'a) list \<Rightarrow> string \<Rightarrow> 'a property option" where
  "get obj k =
     (case map_of obj k of
        Some v \<Rightarrow> Some (Own v)
      | None \<Rightarrow> if k \<in> set Object_prototype then Some Inherited else None)"

text \<open>
  \<^verbatim>\<open>Object.keys(obj)\<close>: the keys that are array indices (the decimal numerals below
  \<open>2\<^sup>3\<^sup>2 - 1\<close>, without leading zeros) in ascending order, then the other keys in the
  order of insertion.
\<close>

definition array_index :: "string \<Rightarrow> bool" where
  "array_index k \<longleftrightarrow>
     k \<noteq> [] \<and> list_all is_digit k \<and> (length k = 1 \<or> hd k \<noteq> CHR ''0'') \<and>
     digits_int k < 4294967295"

definition Object_keys :: "(string \<times> 'a) list \<Rightarrow> string list" where
  "Object_keys obj =
     sort_key digits_int (filter array_index (map fst obj)) @
     filter (\<lambda>k. \<not> array_index k) (map fst obj)"

subsection \<open>Errors, the runtime, the data model\<close>

text \<open>
  What the code throws. \<open>Error msg\<close> is \<^verbatim>\<open>new Error(msg)\<close>, thrown by \<^verbatim>\<open>assert\<close>;
  \<open>InvalidCharacterError\<close> is what \<^verbatim>\<open>Base64.decode\<close> and \<^verbatim>\<open>Base64.encode\<close> throw;
  \<open>TypeError\<close> is thrown by the call of a method on \<^verbatim>\<open>undefined\<close>.
  \<open>OutOfFuel\<close> is no exception of the source: the rewriting loops and recursions of
  the source need not end, the model bounds them by a counter and returns
  \<open>OutOfFuel\<close> when the counter is used up.
\<close>

datatype error = Error string | InvalidCharacterError | TypeError | OutOfFuel

text \<open>
  The runtime and the required packages. A function that may throw returns an option.
  \<open>URL_origin b\<close> is \<^verbatim>\<open>new URL(b).origin\<close>.
\<close>

record lib =
  QuotedPrintable_decode :: "string \<Rightarrow> string"
  Base64_decode :: "string \<Rightarrow> string option"
  Base64_encode :: "string \<Rightarrow> string option"
  escape :: "string \<Rightarrow> string"
  decodeURIComponent :: "string \<Rightarrow> string option"
  encodeURIComponent :: "string \<Rightarrow> string"
  URL_origin :: "string \<Rightarrow> string option"

text \<open>
  The object \<^verbatim>\<open>asset = { encoding, type, data, id }\<close> built by the parser, and the
  object \<^verbatim>\<open>{ frames, media, index }\<close> it returns; \<^verbatim>\<open>index\<close> may be \<^verbatim>\<open>undefined\<close>.
\<close>

record asset =
  encoding :: string
  type :: string
  data :: string
  id :: "string option"

record archive =
  frames :: "(string \<times> asset) list"
  media :: "(string \<times> asset) list"
  index :: "string option"

subsection \<open>A reference runtime\<close>

text \<open>
  The theorems below hold for every runtime \<open>L\<close>. Concrete runs use the instance
  \<open>node\<close>, which follows the packages \<^verbatim>\<open>base-64\<close> and \<^verbatim>\<open>quoted-printable\<close> and the
  built-ins \<^verbatim>\<open>escape\<close> and \<^verbatim>\<open>encodeURIComponent\<close> on code units below 256. Two of its
  functions cover a part of their domain only and return \<open>None\<close> outside it, where the
  model has no value for them: \<^verbatim>\<open>decodeURIComponent\<close> decodes percent-escaped UTF-8 as long
  as the result stays below 256, and \<open>URL_origin\<close> reads the URLs \<^verbatim>\<open>http://host[:port]\<close>
  and \<^verbatim>\<open>https://host[:port]\<close> whose host is written with ASCII letters, digits, dots,
  hyphens and underscores and is not a number in its last label.
\<close>

definition b64_table :: string where
  "b64_table = ''ABCDEFGHIJKLMNOPQRSTUVWXYZabcdefghijklmnopqrstuvwxyz0123456789+/''"

definition b64_char :: "nat \<Rightarrow> char" where
  "b64_char n = b64_table ! (n mod 64)"

fun b64_groups :: "nat list \<Rightarrow> string" where
  "b64_groups (a # b # c # rest) =
     [b64_char (a div 4), b64_char ((a mod 4) * 16 + b div 16),
      b64_char ((b mod 16) * 4 + c div 64), b64_char (c mod 64)] @ b64_groups rest"
| "b64_groups [a, b] =
     [b64_char (a div 4), b64_char ((a mod 4) * 16 + b div 16), b64_char ((b mod 16) * 4),
      CHR ''='']"
| "b64_groups [a] = [b64_char (a div 4), b64_char ((a mod 4) * 16), CHR ''='', CHR ''='']"
| "b64_groups [] = []"

definition b64_encode :: "string \<Rightarrow> string option" where
  "b64_encode s = Some (b64_groups (map of_char s))"

text \<open>
  \<^verbatim>\<open>Base64.decode\<close>: white space is dropped, the padding of a text whose length is
  a multiple of four is dropped, a length of \<open>4k + 1\<close> or a character outside
  the alphabet throws; a group of four characters yields three bytes.
\<close>

definition b64_strip_padding :: "string \<Rightarrow> string" where
  "b64_strip_padding s =
     (if length s mod 4 = 0 then
        (if suffix ''=='' s then take (length s - 2) s
         else if suffix ''='' s then take (length s - 1) s else s)
      else s)"

definition byte :: "nat \<Rightarrow> char" where
  "byte n = char_of (n mod 256)"

fun b64_bytes :: "nat list \<Rightarrow> string" where
  "b64_bytes (a # b # c # d # rest) =
     [byte ((a * 64 + b) div 16), byte ((b * 64 + c) div 4), byte (c * 64 + d)] @
     b64_bytes rest"
| "b64_bytes [a, b, c] = [byte ((a * 64 + b) div 16), byte ((b * 64 + c) div 4)]"
| "b64_bytes [a, b] = [byte ((a * 64 + b) div 16)]"
| "b64_bytes rest = []"

definition b64_value :: "char \<Rightarrow> nat option" where
  "b64_value c =
     (let n = of_char c :: nat
      in if 65 \<le> n \<and> n \<le> 90 then Some (n - 65)
         else if 97 \<le> n \<and> n \<le> 122 then Some (n - 71)
         else if 48 \<le> n \<and> n \<le> 57 then Some (n + 4)
         else if n = 43 then Some 62
         else if n = 47 then Some 63
         else None)"

definition b64_decode :: "string \<Rightarrow> string option" where
  "b64_decode input =
     (let s = b64_strip_padding
                (filter (\<lambda>c. c \<noteq> CHR 0x09 \<and> c \<noteq> CHR 0x0A \<and> c \<noteq> CHR 0x0C \<and>
                              c \<noteq> CHR 0x0D \<and> c \<noteq> CHR 0x20) input)
      in if length s mod 4 = 1 \<or> (\<exists>c \<in> set s. b64_value c = None) then None
         else Some (b64_bytes (map (\<lambda>c. case b64_value c of None \<Rightarrow> 0 | Some v \<Rightarrow> v) s)))"

definition hex_value :: "char \<Rightarrow> nat option" where
  "hex_value c =
     (let n = of_char c :: nat
      in if 48 \<le> n \<and> n \<le> 57 then Some (n - 48)
         else if 65 \<le> n \<and> n \<le> 70 then Some (n - 55)
         else if 97 \<le> n \<and> n \<le> 102 then Some (n - 87)
         else None)"

definition hex_byte :: "nat \<Rightarrow> string" where
  "hex_byte n = [''0123456789ABCDEF'' ! (n div 16 mod 16), ''0123456789ABCDEF'' ! (n mod 16)]"

text \<open>The three replacements of \<^verbatim>\<open>QuotedPrintable.decode\<close>, in their order.\<close>

fun qp_trailing_space :: "string \<Rightarrow> string" where
  "qp_trailing_space [] = []"
| "qp_trailing_space [c] = (if c = CHR 0x09 \<or> c = CHR 0x20 then [] else [c])"
| "qp_trailing_space (c # d # cs) =
     (if (c = CHR 0x09 \<or> c = CHR 0x20) \<and> (d = CHR 0x0A \<or> d = CHR 0x0D)
      then qp_trailing_space (d # cs) else c # qp_trailing_space (d # cs))"

fun qp_soft_breaks :: "string \<Rightarrow> string" where
  "qp_soft_breaks [] = []"
| "qp_soft_breaks (c # cs) =
     (if c = CHR ''='' \<and> cs = [] then []
      else if c = CHR ''='' \<and> prefix [CHR 0x0D, CHR 0x0A] cs then qp_soft_breaks (drop 2 cs)
      else if c = CHR ''='' \<and> (prefix [CHR 0x0D] cs \<or> prefix [CHR 0x0A] cs)
        then qp_soft_breaks (drop 1 cs)
      else c # qp_soft_breaks cs)"

fun qp_escapes :: "string \<Rightarrow> string" where
  "qp_escapes (c # a # b # cs) =
     (case (if c = CHR ''='' then hex_value a else None, hex_value b) of
        (Some x, Some y) \<Rightarrow> byte (16 * x + y) # qp_escapes cs
      | _ \<Rightarrow> c # qp_escapes (a # b # cs))"
| "qp_escapes cs = cs"

definition qp_decode :: "string \<Rightarrow> string" where
  "qp_decode input = qp_escapes (qp_soft_breaks (qp_trailing_space input))"

text \<open>\<^verbatim>\<open>escape\<close> keeps letters, digits and \<^verbatim>\<open>@*_+-./\<close>.\<close>

definition js_escape :: "string \<Rightarrow> string" where
  "js_escape s =
     concat (map (\<lambda>c. if c \<in> set (b64_table @ ''@*_-.'') then [c]
                        else CHR ''%'' # hex_byte (of_char c)) s)"

fun percent_bytes :: "string \<Rightarrow> nat list option" where
  "percent_bytes [] = Some []"
| "percent_bytes (c # cs) =
     (if c = CHR ''%'' then
        (case cs of
           a # b # rest \<Rightarrow>
             (case (hex_value a, hex_value b, percent_bytes rest) of
                (Some x, Some y, Some bs) \<Rightarrow> Some ((16 * x + y) # bs)
              | _ \<Rightarrow> None)
         | _ \<Rightarrow> None)
      else map_option ((#) (of_char c)) (percent_bytes cs))"

fun utf8_below_256 :: "nat list \<Rightarrow> string option" where
  "utf8_below_256 [] = Some []"
| "utf8_below_256 (b # bs) =
     (if b < 128 then map_option ((#) (byte b)) (utf8_below_256 bs)
      else if b = 194 \<or> b = 195 then
        (case bs of
           c # rest \<Rightarrow>
             if 128 \<le> c \<and> c < 192
             then map_option ((#) (byte ((b - 192) * 64 + (c - 128)))) (utf8_below_256 rest)
             else None
         | [] \<Rightarrow> None)
      else None)"

definition js_decodeURIComponent :: "string \<Rightarrow> string option" where
  "js_decodeURIComponent s =
     (case percent_bytes s of None \<Rightarrow> None | Some bs \<Rightarrow> utf8_below_256 bs)"

text \<open>
  \<^verbatim>\<open>encodeURIComponent\<close> keeps letters, digits and \<^verbatim>\<open>-_.!~*'()\<close> and writes every other
  code unit as the percent-escaped bytes of its UTF-8 form.
\<close>

definition js_encodeURIComponent :: "string \<Rightarrow> string" where
  "js_encodeURIComponent s =
     concat (map (\<lambda>c. let n = of_char c :: nat
                       in if c \<in> set (butlast (butlast b64_table) @ ''-_.!~*()'' @ [CHR 0x27])
                          then [c]
                          else if n < 128 then CHR ''%'' # hex_byte n
                          else CHR ''%'' # hex_byte (192 + n div 64) @
                               CHR ''%'' # hex_byte (128 + n mod 64)) s)"

text \<open>
  \<^verbatim>\<open>new URL(b).origin\<close> on the part of its domain described above: scheme and host are
  put in lower case, the authority ends at a slash, a backslash, \<^verbatim>\<open>?\<close> or \<^verbatim>\<open>#\<close>, a port is written
  without leading zeros and left out when it is the default port of the scheme; a port
  that is no number below 65536 throws.
\<close>

definition http_origin :: "string \<Rightarrow> string option" where
  "http_origin b =
     (let lb = map lower b;
          scheme = (if prefix ''http://'' lb then ''http''
                    else if prefix ''https://'' lb then ''https'' else []);
          authority = takeWhile (\<lambda>c. c \<notin> set [CHR ''/'', CHR 0x5C, CHR ''?'', CHR ''#''])
                        (drop (length scheme + 3) lb);
          host = takeWhile (\<lambda>c. c \<noteq> CHR '':'') authority;
          port = dropWhile (\<lambda>c. c = CHR ''0'') (drop (length host + 1) authority);
          label = last (split (if suffix ''.'' host then butlast host else host) ''.'')
      in if scheme = [] \<or> host = [] \<or>
            (\<exists>c \<in> set host. c \<notin> set ''abcdefghijklmnopqrstuvwxyz0123456789.-_'') \<or>
            list_all is_digit label \<or> prefix ''0x'' label \<or>
            \<not> list_all is_digit port \<or> 65535 < digits_int port
         then None
         else Some (scheme @ ''://'' @ host @
                    (if drop (length host) authority = [] \<or> drop (length host) authority = '':'' \<or>
                        digits_int port = (if scheme = ''http'' then 80 else 443)
                     then []
                     else '':'' @ (if port = [] then ''0'' else port))))"

definition node :: lib where
  "node = \<lparr>QuotedPrintable_decode = qp_decode, Base64_decode = b64_decode,
            Base64_encode = b64_encode, escape = js_escape,
            decodeURIComponent = js_decodeURIComponent,
            encodeURIComponent = js_encodeURIComponent,
            URL_origin = http_origin\<rparr>"

subsection \<open>\<^verbatim>\<open>convertAssetToDataURI\<close>\<close>

definition convertAssetToDataURI :: "lib \<Rightarrow> asset \<Rightarrow> error + string" where
  "convertAssetToDataURI L a =
     (if encoding a = ''quoted-printable'' then
        Inr (''data:'' @ type a @ '';utf8,'' @ escape L (QuotedPrintable_decode L (data a)))
      else if encoding a = ''base64'' then
        Inr (''data:'' @ type a @ '';base64,'' @ data a)
      else
        (case Base64_encode L (data a) of
           None \<Rightarrow> Inl InvalidCharacterError
         | Some b \<Rightarrow> Inr (''data:'' @ type a @ '';base64,'' @ b)))"

subsection \<open>\<^verbatim>\<open>absoluteURL\<close> and \<^verbatim>\<open>findAsset\<close>\<close>

text \<open>The loop of \<^verbatim>\<open>absoluteURL\<close> over \<^verbatim>\<open>parts\<close>; \<^verbatim>\<open>pop\<close> on an empty array does nothing.\<close>

fun fold_parts :: "string list \<Rightarrow> string list \<Rightarrow> string list" where
  "fold_parts stack [] = stack"
| "fold_parts stack (p # ps) =
     (if p = ''.'' then fold_parts stack ps
      else if p = ''..'' then fold_parts (butlast stack) ps
      else fold_parts (stack @ [p]) ps)"

definition absoluteURL :: "string \<Rightarrow> string \<Rightarrow> string" where
  "absoluteURL base relative =
     (if prefix ''http://'' relative \<or> prefix ''https://'' relative then relative
      else join (fold_parts (butlast (split base ''/'')) (split relative ''/'')) ''/'')"

text \<open>\<^verbatim>\<open>reference.replace(/(\"|\')/g, '')\<close>: every quote character is removed.\<close>

definition cleanRef :: "string \<Rightarrow> string" where
  "cleanRef reference = filter (\<lambda>c. c \<noteq> CHR 0x22 \<and> c \<noteq> CHR 0x27) reference"

text \<open>
  The four lookups of \<^verbatim>\<open>findAsset\<close>, each \<open>None\<close> when it misses. \<^verbatim>\<open>if (media[k])\<close> holds
  for an own property (an asset object) and for an inherited member; the object returned
  is \<^verbatim>\<open>{ path: k, entry: media[k] }\<close>.
\<close>

definition direct_lookup ::
  "(string \<times> asset) list \<Rightarrow> string \<Rightarrow> (string \<times> asset property) option" where
  "direct_lookup m r = map_option (Pair r) (get m r)"

definition relative_lookup ::
  "(string \<times> asset) list \<Rightarrow> string \<Rightarrow> string \<Rightarrow> (string \<times> asset property) option" where
  "relative_lookup m base r =
     (let absolutePath = absoluteURL base r
      in map_option (Pair absolutePath) (get m absolutePath))"

definition root_lookup ::
  "lib \<Rightarrow> (string \<times> asset) list \<Rightarrow> string \<Rightarrow> string \<Rightarrow> (string \<times> asset property) option" where
  "root_lookup L m base r =
     (if prefix ''/'' r then
        (case URL_origin L base of
           None \<Rightarrow> None
         | Some origin \<Rightarrow>
             (let fullUrl = origin @ r in map_option (Pair fullUrl) (get m fullUrl)))
      else None)"

definition filename_lookup ::
  "(string \<times> asset) list \<Rightarrow> string \<Rightarrow> (string \<times> asset property) option" where
  "filename_lookup m r =
     (let filename = last (split r ''/'')
      in if filename \<noteq> [] \<and> length filename > 3 then
           (case find (\<lambda>key. suffix (''/'' @ filename) key \<or> suffix filename key)
                   (Object_keys m) of
              None \<Rightarrow> None
            | Some key \<Rightarrow> map_option (Pair key) (get m key))
         else None)"

definition findAsset ::
  "lib \<Rightarrow> (string \<times> asset) list \<Rightarrow> string \<Rightarrow> string \<Rightarrow> (string \<times> asset property) option" where
  "findAsset L m base reference =
     (let r = cleanRef reference in
      case direct_lookup m r of
        Some found \<Rightarrow> Some found
      | None \<Rightarrow>
          (case relative_lookup m base r of
             Some found \<Rightarrow> Some found
           | None \<Rightarrow>
               (case root_lookup L m base r of
                  Some found \<Rightarrow> Some found
                | None \<Rightarrow> filename_lookup m r)))"

subsection \<open>\<^verbatim>\<open>processCSS\<close> and \<^verbatim>\<open>replaceReferences\<close>\<close>

text \<open>
  One turn of the \<^verbatim>\<open>for\<close> loop of \<^verbatim>\<open>replaceReferences\<close> either leaves the loop with the
  text, or goes on at a cursor with a text.
\<close>

datatype step = Done string | Next nat string

text \<open>
  \<^verbatim>\<open>css.substring(i, css.indexOf(')', i))\<close>: without a closing parenthesis the end is
  \<open>-1\<close>, which \<^verbatim>\<open>substring\<close> reads as \<open>0\<close>.
\<close>

definition reference_at :: "string \<Rightarrow> nat \<Rightarrow> string" where
  "reference_at css i =
     (case indexOf css '')'' i of None \<Rightarrow> substring css i 0 | Some j \<Rightarrow> substring css i j)"

text \<open>
  \<^verbatim>\<open>`'data:${entry.type};base64,${Base64.encode(assetData)}'`\<close>; the type of an inherited
  member is \<^verbatim>\<open>undefined\<close>, which the template prints as such.
\<close>

definition entry_type :: "asset property \<Rightarrow> string" where
  "entry_type entry = (case entry of Own a \<Rightarrow> type a | Inherited \<Rightarrow> ''undefined'')"

definition embeddedAsset :: "asset property \<Rightarrow> string \<Rightarrow> string" where
  "embeddedAsset entry b =
     [CHR 0x27] @ ''data:'' @ entry_type entry @ '';base64,'' @ b @ [CHR 0x27]"

text \<open>
  \<^verbatim>\<open>entry.encoding === 'base64' ? Base64.decode(entry.data) : entry.data\<close>, which stands
  outside the \<^verbatim>\<open>try\<close> block of \<^verbatim>\<open>replaceReferences\<close>.
\<close>

definition decoded_data :: "lib \<Rightarrow> asset \<Rightarrow> error + string" where
  "decoded_data L entry =
     (if encoding entry = ''base64'' then
        (case Base64_decode L (data entry) of
           None \<Rightarrow> Inl InvalidCharacterError
         | Some d \<Rightarrow> Inr d)
      else Inr (data entry))"

text \<open>
  The \<^verbatim>\<open>try\<close> block followed by the increment \<^verbatim>\<open>i += reference.length\<close>: when
  \<^verbatim>\<open>Base64.encode\<close> throws, the text stays as it is.
\<close>

definition embed ::
  "lib \<Rightarrow> string \<Rightarrow> nat \<Rightarrow> string \<Rightarrow> asset property \<Rightarrow> string \<Rightarrow> step" where
  "embed L css i reference entry assetData =
     (case Base64_encode L assetData of
        None \<Rightarrow> Next (i + length reference) css
      | Some b \<Rightarrow>
          Next (i + length reference)
            (substring css 0 i @ embeddedAsset entry b @ drop (i + length reference) css))"

text \<open>
  The data to embed. The call \<^verbatim>\<open>processCSS(media, path)\<close> is the parameter \<open>pcss\<close>; it
  returns \<^verbatim>\<open>null\<close> (\<open>None\<close>) for a path that is no stylesheet, and \<^verbatim>\<open>Base64.encode(null)\<close>
  encodes the text \<^verbatim>\<open>null\<close>. For an inherited member neither comparison holds and
  \<^verbatim>\<open>entry.data\<close> is \<^verbatim>\<open>undefined\<close>, which \<^verbatim>\<open>Base64.encode\<close> reads as the text \<^verbatim>\<open>undefined\<close>.
\<close>

definition assetData ::
  "lib \<Rightarrow> (string \<Rightarrow> error + string option) \<Rightarrow> string \<Rightarrow> asset property \<Rightarrow> error + string" where
  "assetData L pcss path entry =
     (case entry of
        Own a \<Rightarrow>
          if type a = ''text/css'' then
            map_sum (\<lambda>e. e) (\<lambda>r. case r of None \<Rightarrow> ''null'' | Some d \<Rightarrow> d) (pcss path)
          else decoded_data L a
      | Inherited \<Rightarrow> Inr ''undefined'')"

text \<open>One turn of the loop at cursor \<open>i\<close>.\<close>

definition replace_step ::
  "lib \<Rightarrow> (string \<Rightarrow> error + string option) \<Rightarrow> (string \<times> asset) list \<Rightarrow> string \<Rightarrow>
   nat \<Rightarrow> string \<Rightarrow> error + step" where
  "replace_step L pcss m base i css =
     (case indexOf css ''url('' i of
        None \<Rightarrow> Inr (Done css)
      | Some k \<Rightarrow>
          if k = 0 then Inr (Done css)
          else
            (let i = k + 4;
                 reference = reference_at css i
             in case findAsset L m base reference of
                  None \<Rightarrow> Inr (Next (i + length reference) css)
                | Some (path, entry) \<Rightarrow>
                    (case assetData L pcss path entry of
                       Inl e \<Rightarrow> Inl e
                     | Inr d \<Rightarrow> Inr (embed L css i reference entry d))))"

text \<open>
  The counter bounds the turns of the loop and the nesting of \<^verbatim>\<open>processCSS\<close>:
  neither is bounded in the source.
\<close>

fun processCSS :: "lib \<Rightarrow> nat \<Rightarrow> (string \<times> asset) list \<Rightarrow> string \<Rightarrow> error + string option"
  and replace_loop ::
    "lib \<Rightarrow> nat \<Rightarrow> (string \<times> asset) list \<Rightarrow> string \<Rightarrow> nat \<Rightarrow> string \<Rightarrow> error + string"
where
  "processCSS L 0 m path = Inl OutOfFuel"
| "processCSS L (Suc n) m path =
     (case get m path of
        None \<Rightarrow> Inr None
      | Some Inherited \<Rightarrow> Inr None
      | Some (Own entry) \<Rightarrow>
          if type entry \<noteq> ''text/css'' then Inr None
          else
            (case decoded_data L entry of
               Inl e \<Rightarrow> Inl e
             | Inr decoded \<Rightarrow> map_sum (\<lambda>e. e) Some (replace_loop L n m path 0 decoded)))"
| "replace_loop L 0 m base i css = Inl OutOfFuel"
| "replace_loop L (Suc n) m base i css =
     (case replace_step L (processCSS L n m) m base i css of
        Inl e \<Rightarrow> Inl e
      | Inr (Done css') \<Rightarrow> Inr css'
      | Inr (Next i' css') \<Rightarrow> replace_loop L n m base i' css')"

definition replaceReferences ::
  "lib \<Rightarrow> nat \<Rightarrow> (string \<times> asset) list \<Rightarrow> string \<Rightarrow> string \<Rightarrow> error + string" where
  "replaceReferences L n m base css = replace_loop L n m base 0 css"

subsection \<open>The parser: lines and headers\<close>

text \<open>
  The parser reads \<^verbatim>\<open>mhtml\<close> through the index \<^verbatim>\<open>i\<close>, which only grows; the model
  keeps the text from \<^verbatim>\<open>i\<close> on. \<^verbatim>\<open>i < mhtml.length - 1\<close> then says that at least two
  characters are left.

  \<^verbatim>\<open>getLine\<close>: the line up to and with the next newline; without a newline the
  assertion in the loop fails.
\<close>

fun getLine_raw :: "string \<Rightarrow> error + (string \<times> string)" where
  "getLine_raw [] = Inl (Error ''Unexpected EOF'')"
| "getLine_raw (c # cs) =
     (if c = CHR 0x0A then Inr ([c], cs)
      else (case getLine_raw cs of
              Inl e \<Rightarrow> Inl e
            | Inr (line, rest) \<Rightarrow> Inr (c # line, rest)))"

text \<open>What \<^verbatim>\<open>getLine(encoding)\<close> returns for the line it has read.\<close>

definition decoded_line :: "lib \<Rightarrow> string option \<Rightarrow> string \<Rightarrow> string" where
  "decoded_line L enc line =
     (if enc = Some ''quoted-printable'' then QuotedPrintable_decode L line
      else if enc = Some ''base64'' then js_trim line
      else line)"

definition getLine :: "lib \<Rightarrow> string option \<Rightarrow> string \<Rightarrow> error + (string \<times> string)" where
  "getLine L enc inp =
     (case getLine_raw inp of
        Inl e \<Rightarrow> Inl e
      | Inr (line, rest) \<Rightarrow> Inr (decoded_line L enc line, rest))"

text \<open>\<^verbatim>\<open>trim\<close>: the assertion comes first in each turn, also before a visible character.\<close>

fun trim :: "string \<Rightarrow> error + string" where
  "trim (c # d # cs) = (if js_space c then trim (d # cs) else Inr (c # d # cs))"
| "trim cs = Inl (Error ''Unexpected EOF'')"

text \<open>
  \<^verbatim>\<open>next != 0\<close> compares a string with a number: the string is converted by
  \<^verbatim>\<open>ToNumber\<close>. It is \<open>0\<close> for white space alone and for a numeric literal of value zero
  (a decimal literal whose digits are zeros or which rounds to zero, or a binary, octal or
  hexadecimal literal of zeros), and \<^verbatim>\<open>NaN\<close> for any other text.
\<close>

definition all_zero :: "string \<Rightarrow> bool" where
  "all_zero ds \<longleftrightarrow> (\<forall>c \<in> set ds. c = CHR ''0'')"

definition exponent_part :: "string \<Rightarrow> int option" where
  "exponent_part r =
     (if r = [] then Some 0
      else if hd r = CHR ''e'' \<or> hd r = CHR ''E'' then
        (let ds = (if prefix ''-'' (tl r) \<or> prefix ''+'' (tl r) then drop 2 r else tl r)
         in if ds \<noteq> [] \<and> list_all is_digit ds
            then Some (if prefix ''-'' (tl r) then - int (digits_value ds)
                       else int (digits_value ds))
            else None)
      else None)"

text \<open>An unsigned decimal literal as its digits and its decimal exponent.\<close>

definition decimal_literal :: "string \<Rightarrow> (string \<times> int) option" where
  "decimal_literal t =
     (let ip = takeWhile is_digit t;
          r = dropWhile is_digit t;
          fp = (if prefix ''.'' r then takeWhile is_digit (tl r) else []);
          r' = (if prefix ''.'' r then dropWhile is_digit (tl r) else r)
      in if ip = [] \<and> fp = [] then None
         else map_option (\<lambda>e. (ip @ fp, e - int (length fp))) (exponent_part r'))"

definition number_is_zero :: "string \<Rightarrow> bool" where
  "number_is_zero s =
     (let t = js_trim s
      in if t = [] then True
         else if (\<exists>p \<in> set [''0x'', ''0X'', ''0o'', ''0O'', ''0b'', ''0B'']. prefix p t)
           then drop 2 t \<noteq> [] \<and> all_zero (drop 2 t)
         else
           (case decimal_literal (if prefix ''+'' t \<or> prefix ''-'' t then tl t else t) of
              None \<Rightarrow> False
            | Some (ds, e) \<Rightarrow>
                all_zero ds \<or> (e < 0 \<and> int (digits_value ds) * 2 ^ 1075 \<le> 10 ^ nat (- e))))"

text \<open>The negation of \<^verbatim>\<open>next != 0 && next != '\n'\<close>: the line ends a header block.\<close>

definition blank :: "string \<Rightarrow> bool" where
  "blank next \<longleftrightarrow> number_is_zero next \<or> next = [CHR 0x0A]"

text \<open>
  \<^verbatim>\<open>splitHeaders\<close>, with the variable \<^verbatim>\<open>key\<close> it shares between calls. A line without a
  colon continues the header of \<^verbatim>\<open>key\<close>; \<^verbatim>\<open>obj[key] += ...\<close> on a missing entry appends to
  the text \<^verbatim>\<open>undefined\<close>.
\<close>

definition splitHeaders ::
  "string \<Rightarrow> (string \<times> string) list \<Rightarrow> string option \<Rightarrow>
   error + ((string \<times> string) list \<times> string option)" where
  "splitHeaders line obj key =
     (case index_in '':'' line of
        Some m \<Rightarrow>
          Inr (AList.update (js_trim (take m line)) (js_trim (drop (m + 1) line)) obj,
               Some (js_trim (take m line)))
      | None \<Rightarrow>
          (case key of
             None \<Rightarrow> Inl (Error ''Missing MHTML headers'')
           | Some k \<Rightarrow>
               Inr (AList.update k
                      ((case map_of obj k of None \<Rightarrow> ''undefined'' | Some v \<Rightarrow> v) @ js_trim line)
                      obj,
                    Some k)))"

text \<open>
  \<^verbatim>\<open>match(/boundary=(.*)/m)\<close> and \<^verbatim>\<open>matches[1].replace(/\"/g, '')\<close>: the dot stops at a
  line terminator.
\<close>

definition boundary_of :: "string \<Rightarrow> string option" where
  "boundary_of v =
     (case index_in ''boundary='' v of
        None \<Rightarrow> None
      | Some k \<Rightarrow>
          Some (filter (\<lambda>c. c \<noteq> CHR 0x22)
                  (takeWhile (\<lambda>c. c \<noteq> CHR 0x0A \<and> c \<noteq> CHR 0x0D) (drop (k + 9) v))))"

subsection \<open>The parser: the state machine\<close>

datatype fsm = MHTML_HEADERS | MTHML_CONTENT | MHTML_DATA | MHTML_END

text \<open>
  The variables of \<^verbatim>\<open>parse\<close>. The asset objects are shared between \<^verbatim>\<open>media\<close> and
  \<^verbatim>\<open>frames\<close> and filled after they are registered, so they live in a store: \<open>parts\<close> holds
  every asset object in the order of allocation, one per part, and the two tables hold
  positions in it. The variable \<^verbatim>\<open>asset\<close> is the last position. Beside each asset the
  store records the \<^verbatim>\<open>Content-Location\<close> of its part; the code does not read that record.
\<close>

record pstate =
  state :: fsm
  input :: string
  headers :: "(string \<times> string) list"
  content :: "(string \<times> string) list"
  key :: "string option"
  boundary :: string
  part_encoding :: string
  doc_index :: "string option"
  parts :: "(string option \<times> asset) list"
  media_refs :: "(string \<times> nat) list"
  frames_refs :: "(string \<times> nat) list"

definition initial :: "string \<Rightarrow> pstate" where
  "initial mhtml =
     \<lparr>state = MHTML_HEADERS, input = mhtml, headers = [], content = [], key = None,
      boundary = [], part_encoding = [], doc_index = None, parts = [], media_refs = [],
      frames_refs = []\<rparr>"

definition step_headers :: "lib \<Rightarrow> pstate \<Rightarrow> error + pstate" where
  "step_headers L s =
     (case getLine L None (input s) of
        Inl e \<Rightarrow> Inl e
      | Inr (next, rest) \<Rightarrow>
          if \<not> blank next then
            (case splitHeaders next (headers s) (key s) of
               Inl e \<Rightarrow> Inl e
             | Inr (h, k) \<Rightarrow> Inr (s\<lparr>input := rest, headers := h, key := k\<rparr>))
          else
            (case map_of (headers s) ''Content-Type'' of
               None \<Rightarrow> Inl (Error ''Missing document content type'')
             | Some ct \<Rightarrow>
                 (case boundary_of ct of
                    None \<Rightarrow> Inl (Error ''Missing boundary from document headers'')
                  | Some b \<Rightarrow>
                      (case trim rest of
                         Inl e \<Rightarrow> Inl e
                       | Inr rest' \<Rightarrow>
                           (case getLine L None rest' of
                              Inl e \<Rightarrow> Inl e
                            | Inr (next', rest'') \<Rightarrow>
                                if js_includes next' b then
                                  Inr (s\<lparr>input := rest'', boundary := b, content := [],
                                         state := MTHML_CONTENT\<rparr>)
                                else Inl (Error ''Expected boundary''))))))"

text \<open>
  The end of a part's header block: the four headers are read, the assertions are made
  in the order of the source, the asset is allocated and registered.
\<close>

definition register_asset :: "pstate \<Rightarrow> error + pstate" where
  "register_asset s =
     (let encoding = map_of (content s) ''Content-Transfer-Encoding'';
          type = map_of (content s) ''Content-Type'';
          id = map_of (content s) ''Content-ID'';
          location = map_of (content s) ''Content-Location'';
          index = (if doc_index s = None then location else doc_index s)
      in if doc_index s = None \<and> (index = None \<or> type \<noteq> Some ''text/html'')
           then Inl (Error ''Index not found'')
         else if id = None \<and> location = None
           then Inl (Error ''ID or location header not provided'')
         else
           (case (encoding, type) of
              (None, _) \<Rightarrow> Inl (Error ''Content-Transfer-Encoding not provided'')
            | (Some _, None) \<Rightarrow> Inl (Error ''Content-Type not provided'')
            | (Some enc, Some ty) \<Rightarrow>
                (let asset = length (parts s) in
                 Inr (s\<lparr>part_encoding := enc, doc_index := index,
                        parts := parts s @ [(location, \<lparr>encoding = enc, type = ty, data = [], id = id\<rparr>)],
                        frames_refs :=
                          (case id of
                             None \<Rightarrow> frames_refs s
                           | Some i \<Rightarrow> AList.update i asset (frames_refs s)),
                        media_refs :=
                          (case location of
                             None \<Rightarrow> media_refs s
                           | Some l \<Rightarrow>
                               if get (media_refs s) l = None
                               then AList.update l asset (media_refs s) else media_refs s)\<rparr>))))"

definition step_content :: "lib \<Rightarrow> pstate \<Rightarrow> error + pstate" where
  "step_content L s =
     (case getLine L None (input s) of
        Inl e \<Rightarrow> Inl e
      | Inr (next, rest) \<Rightarrow>
          if \<not> blank next then
            (case splitHeaders next (content s) (key s) of
               Inl e \<Rightarrow> Inl e
             | Inr (c, k) \<Rightarrow> Inr (s\<lparr>input := rest, content := c, key := k\<rparr>))
          else
            (case register_asset s of
               Inl e \<Rightarrow> Inl e
             | Inr s' \<Rightarrow>
                 (case trim rest of
                    Inl e \<Rightarrow> Inl e
                  | Inr rest' \<Rightarrow> Inr (s'\<lparr>input := rest', content := [], state := MHTML_DATA\<rparr>))))"

text \<open>
  The loop of the state \<^verbatim>\<open>MHTML_DATA\<close>: lines are appended to \<^verbatim>\<open>asset.data\<close> until one
  includes the boundary. A line is tested and appended as \<^verbatim>\<open>getLine(encoding)\<close> returns it.
\<close>

lemma getLine_raw_shorter: "getLine_raw inp = Inr (line, rest) \<Longrightarrow> length rest < length inp"
proof (induction inp arbitrary: line)
  case Nil
  then show ?case by simp
next
  case (Cons c cs)
  show ?case
  proof (cases "c = CHR 0x0A")
    case True
    with Cons.prems show ?thesis by simp
  next
    case False
    with Cons.prems obtain l where "getLine_raw cs = Inr (l, rest)"
      by (auto split: sum.splits)
    with Cons.IH have "length rest < length cs" by blast
    then show ?thesis by simp
  qed
qed

lemma getLine_shorter: "getLine L enc inp = Inr (line, rest) \<Longrightarrow> length rest < length inp"
  by (auto simp: getLine_def split: sum.splits dest: getLine_raw_shorter)

function read_body ::
  "lib \<Rightarrow> string \<Rightarrow> string \<Rightarrow> string \<Rightarrow> string \<Rightarrow> error + (string \<times> string)" where
  "read_body L enc b inp acc =
     (case getLine L (Some enc) inp of
        Inl e \<Rightarrow> Inl e
      | Inr (next, rest) \<Rightarrow>
          if js_includes next b then Inr (acc, rest) else read_body L enc b rest (acc @ next))"
  by pat_completeness auto
termination
  by (relation "measure (\<lambda>(L, enc, b, inp, acc). length inp)")
     (auto dest: getLine_shorter)

declare read_body.simps [simp del]

text \<open>
  \<^verbatim>\<open>try { asset.data = decodeURIComponent(escape(asset.data)); } catch (e) { e; }\<close>
\<close>

definition decode_unicode :: "lib \<Rightarrow> string \<Rightarrow> string" where
  "decode_unicode L d =
     (case decodeURIComponent L (escape L d) of None \<Rightarrow> d | Some d' \<Rightarrow> d')"

text \<open>A turn either goes on in a new state or returns from \<^verbatim>\<open>parse\<close> (\<^verbatim>\<open>htmlOnly\<close>).\<close>

datatype 'd turn = Continue pstate | Return 'd

definition step_data :: "lib \<Rightarrow> bool \<Rightarrow> (string \<Rightarrow> 'd) \<Rightarrow> pstate \<Rightarrow> error + 'd turn" where
  "step_data L htmlOnly parseDOM s =
     (let asset = length (parts s) - 1;
          (location, a) = parts s ! asset
      in case read_body L (part_encoding s) (boundary s) (input s) (data a) of
           Inl e \<Rightarrow> Inl e
         | Inr (d, rest) \<Rightarrow>
             if htmlOnly \<and> doc_index s \<noteq> None then Inr (Return (parseDOM (decode_unicode L d)))
             else
               Inr (Continue
                      (s\<lparr>input := rest,
                         parts := (parts s)[asset := (location, a\<lparr>data := decode_unicode L d\<rparr>)],
                         state := (if length rest \<le> 1 then MHTML_END else MTHML_CONTENT)\<rparr>)))"

definition step :: "lib \<Rightarrow> bool \<Rightarrow> (string \<Rightarrow> 'd) \<Rightarrow> pstate \<Rightarrow> error + 'd turn" where
  "step L htmlOnly parseDOM s =
     (case state s of
        MHTML_HEADERS \<Rightarrow> map_sum (\<lambda>e. e) Continue (step_headers L s)
      | MTHML_CONTENT \<Rightarrow> map_sum (\<lambda>e. e) Continue (step_content L s)
      | MHTML_DATA \<Rightarrow> step_data L htmlOnly parseDOM s
      | MHTML_END \<Rightarrow> Inr (Continue s))"

lemma read_body_shorter:
  "read_body L enc b inp acc = Inr (d, rest) \<Longrightarrow> length rest < length inp"
proof (induction L enc b inp acc rule: read_body.induct)
  case (1 L enc b inp acc)
  from "1.prems" obtain ln r where g: "getLine L (Some enc) inp = Inr (ln, r)"
    by (subst (asm) read_body.simps) (auto split: sum.splits)
  show ?case
  proof (cases "js_includes ln b")
    case True
    with "1.prems" g have "rest = r" by (subst (asm) read_body.simps) simp
    with g show ?thesis by (auto dest: getLine_shorter)
  next
    case False
    with "1.prems" g have "read_body L enc b r (acc @ ln) = Inr (d, rest)"
      by (subst (asm) read_body.simps) simp
    with "1.IH" [OF g refl False] have "length rest < length r" by simp
    with g show ?thesis by (auto dest: getLine_shorter)
  qed
qed

lemma trim_not_longer: "trim inp = Inr rest \<Longrightarrow> length rest \<le> length inp"
  by (induction inp arbitrary: rest rule: trim.induct) (auto split: if_splits)

lemma step_shorter:
  assumes "step L htmlOnly parseDOM s = Inr (Continue s')" and "state s \<noteq> MHTML_END"
  shows "length (input s') < length (input s)"
proof (cases "state s")
  case MHTML_HEADERS
  with assms show ?thesis
    by (auto simp: step_def step_headers_def split: sum.splits if_splits option.splits
          dest!: getLine_shorter trim_not_longer)
next
  case MTHML_CONTENT
  with assms show ?thesis
    by (auto simp: step_def step_content_def register_asset_def Let_def
          split: sum.splits if_splits option.splits prod.splits
          dest!: getLine_shorter trim_not_longer)
next
  case MHTML_DATA
  with assms show ?thesis
    by (auto simp: step_def step_data_def Let_def split: sum.splits if_splits prod.splits
          dest!: read_body_shorter)
next
  case MHTML_END
  with assms show ?thesis by simp
qed

text \<open>The loop \<^verbatim>\<open>while (state != MHTML_FSM.MHTML_END)\<close>.\<close>

function run :: "lib \<Rightarrow> bool \<Rightarrow> (string \<Rightarrow> 'd) \<Rightarrow> pstate \<Rightarrow> error + (pstate + 'd)" where
  "run L htmlOnly parseDOM s =
     (if state s = MHTML_END then Inr (Inl s)
      else (case step L htmlOnly parseDOM s of
              Inl e \<Rightarrow> Inl e
            | Inr (Return d) \<Rightarrow> Inr (Inr d)
            | Inr (Continue s') \<Rightarrow> run L htmlOnly parseDOM s'))"
  by pat_completeness auto
termination
  by (relation "measure (\<lambda>(L, htmlOnly, parseDOM, s). length (input s))")
     (auto dest: step_shorter)

declare run.simps [simp del]

text \<open>The object \<^verbatim>\<open>{ frames, media, index }\<close>: the tables with the assets they point to.\<close>

definition archive_of :: "pstate \<Rightarrow> archive" where
  "archive_of s =
     \<lparr>frames = map (\<lambda>(k, r). (k, snd (parts s ! r))) (frames_refs s),
      media = map (\<lambda>(k, r). (k, snd (parts s ! r))) (media_refs s),
      index = doc_index s\<rparr>"

definition parse :: "lib \<Rightarrow> bool \<Rightarrow> (string \<Rightarrow> 'd) \<Rightarrow> string \<Rightarrow> error + (archive + 'd)" where
  "parse L htmlOnly parseDOM mhtml =
     map_sum (\<lambda>e. e) (map_sum archive_of (\<lambda>d. d)) (run L htmlOnly parseDOM (initial mhtml))"

subsection \<open>The document\<close>

text \<open>
  The tree the DOM provider returns. An element has a tag name, attributes in their order,
  child nodes and, when the provider keeps the children of a \<^verbatim>\<open>template\<close> apart, the child
  nodes of its \<^verbatim>\<open>content\<close>. \<open>Text\<close> stands for every node that is neither an element nor
  a comment. A document is the list of the child nodes of \<^verbatim>\<open>dom.window.document\<close>.
\<close>

datatype node =
    Element (tagName: string) (attributes: "(string \<times> string) list")
      (childNodes: "node list") (template_content: "node list option")
  | Text string
  | Comment string

fun is_element :: "node \<Rightarrow> bool" where
  "is_element (Element t a cs tc) = True"
| "is_element n = False"

fun getAttribute :: "node \<Rightarrow> string \<Rightarrow> string option" where
  "getAttribute (Element t a cs tc) name = map_of a name"
| "getAttribute n name = None"

fun setAttribute :: "node \<Rightarrow> string \<Rightarrow> string \<Rightarrow> node" where
  "setAttribute (Element t a cs tc) name v = Element t (AList.update name v a) cs tc"
| "setAttribute n name v = n"

fun removeAttribute :: "node \<Rightarrow> string \<Rightarrow> node" where
  "removeAttribute (Element t a cs tc) name = Element t (AList.delete name a) cs tc"
| "removeAttribute n name = n"

fun set_childNodes :: "node \<Rightarrow> node list \<Rightarrow> node" where
  "set_childNodes (Element t a cs tc) cs' = Element t a cs' tc"
| "set_childNodes n cs' = n"

fun children_of :: "node \<Rightarrow> node list" where
  "children_of (Element t a cs tc) = cs"
| "children_of n = []"

text \<open>
  What the source asks of the provider: \<^verbatim>\<open>parseDOM\<close>, \<^verbatim>\<open>innerHTML\<close> of an element, and
  \<^verbatim>\<open>window.document.documentElement.outerHTML\<close> of a document.
\<close>

record provider =
  parseDOM :: "string \<Rightarrow> node list"
  innerHTML :: "node \<Rightarrow> string"
  outerHTML :: "node list \<Rightarrow> string"

text \<open>\<^verbatim>\<open>obj[k]\<close> with \<^verbatim>\<open>k\<close> the result of \<^verbatim>\<open>getAttribute\<close>: \<^verbatim>\<open>null\<close> is the key \<^verbatim>\<open>null\<close>.\<close>

definition property_key :: "string option \<Rightarrow> string" where
  "property_key k = (case k of None \<Rightarrow> ''null'' | Some s \<Rightarrow> s)"

subsection \<open>Declarative shadow DOM\<close>

fun prefix_ci :: "string \<Rightarrow> string \<Rightarrow> bool" where
  "prefix_ci [] s = True"
| "prefix_ci (p # ps) [] = False"
| "prefix_ci (p # ps) (c # cs) = (if lower c = lower p then prefix_ci ps cs else False)"

text \<open>\<^verbatim>\<open>s.replace(/p/gi, r)\<close> for a pattern \<open>p\<close> of plain characters.\<close>

fun replace_ci :: "string \<Rightarrow> string \<Rightarrow> string \<Rightarrow> string" where
  "replace_ci p r [] = []"
| "replace_ci p r (c # cs) =
     (if p \<noteq> [] \<and> prefix_ci p (c # cs) then r @ replace_ci p r (drop (length p) (c # cs))
      else c # replace_ci p r cs)"

text \<open>\<^verbatim>\<open>.replace(/<!--[\s\S]*?-->/g, '')\<close>\<close>

function strip_comments :: "string \<Rightarrow> string" where
  "strip_comments [] = []"
| "strip_comments (c # cs) =
     (case (if prefix ''<!--'' (c # cs) then index_in ''-->'' (drop 4 (c # cs)) else None) of
        Some k \<Rightarrow> strip_comments (drop (4 + k + 3) (c # cs))
      | None \<Rightarrow> c # strip_comments cs)"
  by pat_completeness auto
termination
  by (relation "measure length") auto

text \<open>
  \<^verbatim>\<open>.replace(/<slot[^>]*>.*?<\/slot>/gi, '')\<close>: the opening tag ends at the next \<^verbatim>\<open>>\<close>,
  the closing tag is the next one, and no line terminator may stand between them.
\<close>

definition slot_match :: "string \<Rightarrow> nat option" where
  "slot_match s =
     (if prefix_ci ''<slot'' s then
        (case index_in ''>'' (drop 5 s) of
           None \<Rightarrow> None
         | Some g \<Rightarrow>
             (case index_in ''</slot>'' (map lower (drop (5 + g + 1) s)) of
                None \<Rightarrow> None
              | Some k \<Rightarrow>
                  if \<exists>c \<in> set (take k (drop (5 + g + 1) s)). c = CHR 0x0A \<or> c = CHR 0x0D
                  then None else Some (5 + g + 1 + k + 7)))
      else None)"

function strip_slots :: "string \<Rightarrow> string" where
  "strip_slots [] = []"
| "strip_slots (c # cs) =
     (case slot_match (c # cs) of
        Some n \<Rightarrow> strip_slots (drop n (c # cs))
      | None \<Rightarrow> c # strip_slots cs)"
  by pat_completeness auto
termination
  by (relation "measure length") (auto simp: slot_match_def split: if_splits option.splits)

definition hasOnlySlots :: "string \<Rightarrow> bool" where
  "hasOnlySlots templateContent \<longleftrightarrow> js_trim (strip_comments (strip_slots templateContent)) = []"

definition is_shadow_template :: "node \<Rightarrow> bool" where
  "is_shadow_template n \<longleftrightarrow>
     is_element n \<and> tagName n = ''TEMPLATE'' \<and>
     (getAttribute n ''data-shadowrootmode'' \<noteq> None \<or> getAttribute n ''data-shadowmode'' \<noteq> None)"

fun remove_first :: "('a \<Rightarrow> bool) \<Rightarrow> 'a list \<Rightarrow> 'a list" where
  "remove_first P [] = []"
| "remove_first P (x # xs) = (if P x then xs else x # remove_first P xs)"

fun is_comment :: "node \<Rightarrow> bool" where
  "is_comment (Comment c) = True"
| "is_comment n = False"

text \<open>
  \<^verbatim>\<open>processDeclarativeShadowDOM(element, documentElem)\<close>; it is called when
  \<^verbatim>\<open>element\<close> has a shadow template among its element children.
\<close>

definition processDeclarativeShadowDOM :: "provider \<Rightarrow> node \<Rightarrow> node" where
  "processDeclarativeShadowDOM P element =
     (case find is_shadow_template (children_of element) of
        None \<Rightarrow> element
      | Some shadowTemplate \<Rightarrow>
          (let lightDOMChildren =
                 remove_first is_shadow_template (filter is_element (children_of element));
               rest = remove_first is_shadow_template (children_of element);
               contentNodes = (case template_content shadowTemplate of
                                 Some ns \<Rightarrow> ns
                               | None \<Rightarrow> children_of shadowTemplate);
               element' =
                 (if hasOnlySlots (innerHTML P shadowTemplate) \<or> lightDOMChildren \<noteq> []
                  then set_childNodes element rest
                  else set_childNodes element
                         (rest @ filter (\<lambda>n. \<not> is_comment n) contentNodes))
           in removeAttribute element' ''loaded''))"

subsection \<open>\<^verbatim>\<open>convert\<close>\<close>

text \<open>
  \<^verbatim>\<open>obj[k] && obj[k].type === t\<close>: the entry is an asset of that type; an inherited
  member has no type.
\<close>

definition has_type :: "asset property option \<Rightarrow> string \<Rightarrow> bool" where
  "has_type found t \<longleftrightarrow> (case found of Some (Own a) \<Rightarrow> type a = t | _ \<Rightarrow> False)"

text \<open>The elements \<^verbatim>\<open>convert\<close> creates, and \<^verbatim>\<open>updateInlineStyle\<close>.\<close>

definition base_element :: node where
  "base_element = Element ''BASE'' [(''target'', ''_parent'')] [] None"

definition style_element :: "string \<Rightarrow> node" where
  "style_element css = Element ''STYLE'' [(''type'', ''text/css'')] [Text css] None"

definition updateInlineStyle ::
  "lib \<Rightarrow> nat \<Rightarrow> (string \<times> asset) list \<Rightarrow> string \<Rightarrow> node \<Rightarrow> error + node" where
  "updateInlineStyle L n m base element =
     (case getAttribute element ''style'' of
        None \<Rightarrow> Inr element
      | Some inlineStyle \<Rightarrow>
          if inlineStyle = [] then Inr element
          else map_sum (\<lambda>e. e) (setAttribute element ''style'')
                 (replaceReferences L n m base inlineStyle))"

text \<open>
  The body of \<^verbatim>\<open>childNode.childNodes.forEach\<close> for one child; \<open>idx\<close> is the variable
  \<^verbatim>\<open>index\<close>. It leaves the child in the
  tree, changed in place, or puts a new element in its place; in both cases the child
  itself is pushed on the queue \<^verbatim>\<open>nodes\<close>.
\<close>

datatype visited = Kept node | Replaced node node

definition visit_link ::
  "lib \<Rightarrow> nat \<Rightarrow> archive \<Rightarrow> string option \<Rightarrow> node \<Rightarrow> error + visited" where
  "visit_link L n A href child =
     (if getAttribute child ''rel'' = Some ''stylesheet'' \<and>
         has_type (get (media A) (property_key href)) ''text/css''
      then
        (case processCSS L n (media A) (property_key href) of
           Inl e \<Rightarrow> Inl e
         | Inr css \<Rightarrow>
             Inr (Replaced (style_element (case css of None \<Rightarrow> ''null'' | Some t \<Rightarrow> t)) child))
      else Inr (Kept child))"

definition visit_style ::
  "lib \<Rightarrow> provider \<Rightarrow> nat \<Rightarrow> archive \<Rightarrow> string \<Rightarrow> node \<Rightarrow> error + visited" where
  "visit_style L P n A idx child =
     (case replaceReferences L n (media A) idx (innerHTML P child) of
        Inl e \<Rightarrow> Inl e
      | Inr css \<Rightarrow> Inr (Replaced (style_element css) child))"

text \<open>
  The case \<^verbatim>\<open>IMG\<close>. \<open>image_uri\<close> is the variable \<^verbatim>\<open>img\<close> after the \<^verbatim>\<open>try\<close> block, for an
  asset at \<^verbatim>\<open>media[src]\<close>: \<open>None\<close> is \<^verbatim>\<open>null\<close>. In the test
  \<^verbatim>\<open>media[src] && media[src].type.includes('image')\<close> an inherited member is truthy and has
  no \<^verbatim>\<open>type\<close>, so the call of \<^verbatim>\<open>includes\<close> throws.
\<close>

definition image_uri :: "lib \<Rightarrow> asset \<Rightarrow> string option" where
  "image_uri L entry =
     (if js_includes (type entry) ''image'' then
        (case convertAssetToDataURI L entry of Inl e \<Rightarrow> None | Inr u \<Rightarrow> Some u)
      else None)"

definition visit_img ::
  "lib \<Rightarrow> nat \<Rightarrow> archive \<Rightarrow> string \<Rightarrow> string option \<Rightarrow> node \<Rightarrow> error + visited" where
  "visit_img L n A idx src child =
     (case get (media A) (property_key src) of
        None \<Rightarrow> map_sum (\<lambda>e. e) Kept (updateInlineStyle L n (media A) idx child)
      | Some Inherited \<Rightarrow> Inl TypeError
      | Some (Own entry) \<Rightarrow>
          map_sum (\<lambda>e. e) Kept
            (updateInlineStyle L n (media A) idx
               (case image_uri L entry of
                  None \<Rightarrow> child
                | Some u \<Rightarrow> setAttribute child ''src'' u)))"

text \<open>
  \<^verbatim>\<open>`<${src.split('cid:')[1]}>`\<close>: without a second piece the template prints
  \<^verbatim>\<open>undefined\<close>.
\<close>

definition frame_id :: "string \<Rightarrow> string" where
  "frame_id src =
     ''<'' @ (case split src ''cid:'' of a # b # rest \<Rightarrow> b | _ \<Rightarrow> ''undefined'') @ ''>''"

definition visit_iframe ::
  "lib \<Rightarrow> provider \<Rightarrow> bool \<Rightarrow> (archive \<Rightarrow> error + node list) \<Rightarrow> archive \<Rightarrow>
   string option \<Rightarrow> node \<Rightarrow> error + visited" where
  "visit_iframe L P convertIframes conv A src child =
     (case src of
        None \<Rightarrow> Inr (Kept child)
      | Some s \<Rightarrow>
          if convertIframes \<and> s \<noteq> [] \<and>
             has_type (get (frames A) (frame_id s)) ''text/html''
          then
            (case get (frames A) (frame_id s) of
               None \<Rightarrow> Inr (Kept child)
             | Some Inherited \<Rightarrow> Inr (Kept child)
             | Some (Own frame) \<Rightarrow>
                 (case conv \<lparr>frames = frames A,
                             media = AList.update (frame_id s) frame (media A),
                             index = Some (frame_id s)\<rparr> of
                    Inl e \<Rightarrow> Inl e
                  | Inr iframe \<Rightarrow>
                      Inr (Kept (setAttribute child ''src''
                                   (''data:text/html;charset=utf-8,'' @
                                    encodeURIComponent L (outerHTML P iframe))))))
          else Inr (Kept child))"

text \<open>
  Before the \<^verbatim>\<open>switch\<close>: \<^verbatim>\<open>integrity\<close> is removed and a shadow template among the children
  is processed. \<^verbatim>\<open>href\<close> and \<^verbatim>\<open>src\<close> have been read before.
\<close>

definition prepared :: "provider \<Rightarrow> node \<Rightarrow> node" where
  "prepared P child =
     (let c = removeAttribute child ''integrity''
      in if find is_shadow_template (children_of c) \<noteq> None
         then processDeclarativeShadowDOM P c else c)"

text \<open>\<^verbatim>\<open>switch(child.tagName)\<close>\<close>

definition dispatch ::
  "lib \<Rightarrow> provider \<Rightarrow> bool \<Rightarrow> nat \<Rightarrow> (archive \<Rightarrow> error + node list) \<Rightarrow> archive \<Rightarrow> string \<Rightarrow>
   string option \<Rightarrow> string option \<Rightarrow> node \<Rightarrow> error + visited" where
  "dispatch L P convertIframes n conv A idx href src child =
     (if tagName child = ''HEAD'' then
        Inr (Kept (set_childNodes child (base_element # children_of child)))
      else if tagName child = ''LINK'' then visit_link L n A href child
      else if tagName child = ''STYLE'' then visit_style L P n A idx child
      else if tagName child = ''IMG'' then visit_img L n A idx src child
      else if tagName child = ''IFRAME'' then visit_iframe L P convertIframes conv A src child
      else map_sum (\<lambda>e. e) Kept (updateInlineStyle L n (media A) idx child))"

definition visit ::
  "lib \<Rightarrow> provider \<Rightarrow> bool \<Rightarrow> nat \<Rightarrow> (archive \<Rightarrow> error + node list) \<Rightarrow> archive \<Rightarrow> string \<Rightarrow>
   node \<Rightarrow> error + visited" where
  "visit L P convertIframes n conv A idx child =
     (if \<not> is_element child then Inr (Kept child)
      else dispatch L P convertIframes n conv A idx
             (getAttribute child ''href'') (getAttribute child ''src'') (prepared P child))"

fun pushed :: "visited \<Rightarrow> node" where
  "pushed (Kept c) = c"
| "pushed (Replaced new old) = old"

text \<open>
  The walk. The source takes the nodes from a queue, breadth first; every child is
  visited once, from its own attributes and the archive, so the tree that results does
  not depend on the order and the model walks the tree in document order. When the visits
  of several children throw, the source reports the first in breadth-first order, the
  model the first in document order. The children of a replaced element are still
  visited, outside the tree.
\<close>

fun weight :: "node \<Rightarrow> nat" where
  "weight (Element t a cs tc) =
     (if t = ''HEAD'' then 2 else 1) + sum_list (map weight cs) +
     (case tc of None \<Rightarrow> 0 | Some ns \<Rightarrow> sum_list (map weight ns))"
| "weight n = 1"

definition children_weight :: "node \<Rightarrow> nat" where
  "children_weight n = sum_list (map weight (children_of n))"

lemma weight_pos: "0 < weight n"
  by (cases n) simp_all

lemma weight_children: "children_weight n < weight n"
  by (cases n) (simp_all add: children_weight_def)

lemma weight_children_head:
  "is_element n \<Longrightarrow> tagName n = ''HEAD'' \<Longrightarrow> Suc (children_weight n) < weight n"
  by (cases n) (simp_all add: children_weight_def)

lemma removeAttribute_same [simp]:
  "children_of (removeAttribute n a) = children_of n"
  "is_element (removeAttribute n a) = is_element n"
  "tagName (removeAttribute n a) = tagName n"
  by (cases n; simp)+

lemma setAttribute_same [simp]:
  "children_of (setAttribute n a v) = children_of n"
  "is_element (setAttribute n a v) = is_element n"
  "tagName (setAttribute n a v) = tagName n"
  by (cases n; simp)+

lemma set_childNodes_same [simp]:
  "is_element n \<Longrightarrow> children_of (set_childNodes n cs) = cs"
  "is_element (set_childNodes n cs) = is_element n"
  "tagName (set_childNodes n cs) = tagName n"
  by (cases n; simp)+

lemma remove_first_weight:
  "find Q xs = Some t \<Longrightarrow>
   sum_list (map weight (remove_first Q xs)) + weight t = sum_list (map weight xs)"
  by (induction xs) (auto split: if_splits)

lemma content_weight:
  "is_element t \<Longrightarrow>
   sum_list (map weight (filter (\<lambda>n. \<not> is_comment n)
     (case template_content t of Some ns \<Rightarrow> ns | None \<Rightarrow> children_of t))) < weight t"
proof (cases t)
  case (Element tg a cs tc)
  have le: "\<And>ns. sum_list (map weight (filter (\<lambda>n. \<not> is_comment n) ns)) \<le> sum_list (map weight ns)"
    by (rule sum_list_filter_le_nat)
  show ?thesis
  proof (cases tc)
    case None
    with Element le [of cs] show ?thesis by simp
  next
    case (Some ns)
    with Element le [of ns] show ?thesis by simp
  qed
qed simp_all

lemma shadow_same [simp]:
  "is_element n \<Longrightarrow> is_element (processDeclarativeShadowDOM P n)"
  "is_element n \<Longrightarrow> tagName (processDeclarativeShadowDOM P n) = tagName n"
  by (auto simp: processDeclarativeShadowDOM_def Let_def split: option.splits)

lemma shadow_weight:
  assumes "is_element n"
  shows "children_weight (processDeclarativeShadowDOM P n) \<le> children_weight n"
proof (cases "find is_shadow_template (children_of n)")
  case None
  then show ?thesis by (simp add: processDeclarativeShadowDOM_def)
next
  case (Some t)
  then have t: "is_element t"
    by (auto simp: find_Some_iff is_shadow_template_def)
  from remove_first_weight [OF Some]
  have r: "sum_list (map weight (remove_first is_shadow_template (children_of n))) + weight t
           = children_weight n"
    by (simp add: children_weight_def)
  from content_weight [OF t] r assms Some show ?thesis
    by (auto simp: processDeclarativeShadowDOM_def Let_def children_weight_def)
qed

lemma map_sum_Inr: "map_sum f g x = Inr y \<longleftrightarrow> (\<exists>z. x = Inr z \<and> y = g z)"
  by (cases x) auto

lemma map_sum_Inl: "map_sum f g x = Inl y \<longleftrightarrow> (\<exists>z. x = Inl z \<and> y = f z)"
  by (cases x) auto

lemma updateInlineStyle_same:
  "updateInlineStyle L n m b e = Inr e' \<Longrightarrow>
   children_of e' = children_of e \<and> is_element e' = is_element e \<and> tagName e' = tagName e"
  by (auto simp: updateInlineStyle_def map_sum_Inr split: option.splits if_splits)

lemma visit_img_Inr:
  assumes "visit_img L n A idx src c = Inr v"
  shows "\<exists>c'. v = Kept c' \<and> children_of c' = children_of c \<and>
              is_element c' = is_element c \<and> tagName c' = tagName c"
proof -
  from assms obtain e c' where "updateInlineStyle L n (media A) idx e = Inr c'"
    and "v = Kept c'" and "e = c \<or> (\<exists>u. e = setAttribute c ''src'' u)"
    by (auto simp: visit_img_def map_sum_Inr split: option.splits property.splits)
  with updateInlineStyle_same [of L n "media A" idx e c'] show ?thesis by auto
qed

lemma visit_img_Inl:
  "visit_img L n A idx src c = Inl e \<Longrightarrow>
   e = TypeError \<or> (\<exists>el. updateInlineStyle L n (media A) idx el = Inl e)"
  by (auto simp: visit_img_def map_sum_Inl split: option.splits property.splits)


lemma prepared_same:
  "is_element child \<Longrightarrow> is_element (prepared P child)"
  "is_element child \<Longrightarrow> tagName (prepared P child) = tagName child"
  "is_element child \<Longrightarrow> children_weight (prepared P child) \<le> children_weight child"
  using shadow_weight [of "removeAttribute child ''integrity''" P]
  by (auto simp: prepared_def Let_def children_weight_def)

lemma dispatch_pushed:
  assumes "dispatch L P ci n conv A idx href src c = Inr v" and "is_element c"
  shows "children_weight (pushed v) =
           (if tagName c = ''HEAD'' then Suc (children_weight c) else children_weight c)"
proof (cases "tagName c = ''HEAD''")
  case True
  with assms show ?thesis
    by (auto simp: dispatch_def children_weight_def base_element_def)
next
  case False
  have "children_of (pushed v) = children_of c"
  proof -
    consider "tagName c = ''LINK''" | "tagName c = ''STYLE''" | "tagName c = ''IMG''"
      | "tagName c = ''IFRAME''"
      | "tagName c \<notin> {''HEAD'', ''LINK'', ''STYLE'', ''IMG'', ''IFRAME''}"
      using False by auto
    then show ?thesis
    proof cases
      case 1
      with assms False show ?thesis
        by (auto simp: dispatch_def visit_link_def split: if_splits sum.splits)
    next
      case 2
      with assms False show ?thesis
        by (auto simp: dispatch_def visit_style_def split: sum.splits)
    next
      case 3
      with assms False show ?thesis
        by (auto simp: dispatch_def dest!: visit_img_Inr)
    next
      case 4
      with assms False show ?thesis
        by (auto simp: dispatch_def visit_iframe_def
              split: option.splits if_splits sum.splits property.splits)
    next
      case 5
      with assms show ?thesis
        by (auto simp: dispatch_def map_sum_Inr dest!: updateInlineStyle_same)
    qed
  qed
  with False show ?thesis by (simp add: children_weight_def)
qed

lemma visit_pushed_weight:
  assumes "visit L P ci n conv A idx child = Inr v"
  shows "children_weight (pushed v) < weight child"
proof (cases "is_element child")
  case False
  with assms show ?thesis by (auto simp: visit_def weight_children)
next
  case True
  with assms have d: "dispatch L P ci n conv A idx (getAttribute child ''href'')
      (getAttribute child ''src'') (prepared P child) = Inr v"
    by (simp add: visit_def)
  note p = prepared_same [OF True, of P]
  from dispatch_pushed [OF d p(1)] p(2,3) weight_children [of child]
    weight_children_head [OF True]
  show ?thesis by (auto split: if_splits)
qed

function walk ::
    "lib \<Rightarrow> provider \<Rightarrow> bool \<Rightarrow> nat \<Rightarrow> (archive \<Rightarrow> error + node list) \<Rightarrow> archive \<Rightarrow> string \<Rightarrow>
     node \<Rightarrow> error + node"
  and walk_list ::
    "lib \<Rightarrow> provider \<Rightarrow> bool \<Rightarrow> nat \<Rightarrow> (archive \<Rightarrow> error + node list) \<Rightarrow> archive \<Rightarrow> string \<Rightarrow>
     node list \<Rightarrow> error + node list"
where
  "walk L P ci n conv A idx child =
     (case visit L P ci n conv A idx child of
        Inl e \<Rightarrow> Inl e
      | Inr v \<Rightarrow>
          (case walk_list L P ci n conv A idx (children_of (pushed v)) of
             Inl e \<Rightarrow> Inl e
           | Inr cs \<Rightarrow>
               Inr (case v of Kept c \<Rightarrow> set_childNodes c cs | Replaced new old \<Rightarrow> new)))"
| "walk_list L P ci n conv A idx [] = Inr []"
| "walk_list L P ci n conv A idx (c # cs) =
     (case walk L P ci n conv A idx c of
        Inl e \<Rightarrow> Inl e
      | Inr c' \<Rightarrow> map_sum (\<lambda>e. e) ((#) c') (walk_list L P ci n conv A idx cs))"
  by pat_completeness auto
termination
proof (relation "measure (\<lambda>x. case x of
          Inl (L, P, ci, n, conv, A, idx, child) \<Rightarrow> 2 * weight child
        | Inr (L, P, ci, n, conv, A, idx, cs) \<Rightarrow> 2 * sum_list (map weight cs) + 1)",
    goal_cases)
  case 1
  show ?case by simp
next
  case (2 L P ci n conv A idx child v)
  with visit_pushed_weight [of L P ci n conv A idx child v] show ?case
    by (simp add: children_weight_def)
next
  case (3 L P ci n conv A idx c cs)
  show ?case by simp
next
  case (4 L P ci n conv A idx c cs c')
  show ?case using weight_pos [of c] by simp
qed

declare walk.simps [simp del]

text \<open>
  \<^verbatim>\<open>convert\<close> for a parsed object. The counter bounds the nesting of \<^verbatim>\<open>convert\<close> through
  iframes, which the source does not bound, and is handed to the CSS rewriter; \<open>conv\<close>
  is the nested call.
\<close>

definition preprocess :: "string \<Rightarrow> string" where
  "preprocess html =
     replace_ci ''shadowmode='' ''data-shadowmode=''
       (replace_ci ''shadowrootmode='' ''data-shadowrootmode='' html)"

definition convert_with ::
  "lib \<Rightarrow> provider \<Rightarrow> bool \<Rightarrow> nat \<Rightarrow> (archive \<Rightarrow> error + node list) \<Rightarrow> archive \<Rightarrow>
   error + node list" where
  "convert_with L P convertIframes n conv A =
     (case index A of
        None \<Rightarrow> Inl (Error ''MHTML error: invalid index'')
      | Some idx \<Rightarrow>
          (case get (media A) idx of
             None \<Rightarrow> Inl (Error ''MHTML error: invalid index'')
           | Some Inherited \<Rightarrow> Inl (Error ''MHTML error: invalid index'')
           | Some (Own entry) \<Rightarrow>
               if type entry \<noteq> ''text/html'' then Inl (Error ''MHTML error: invalid index'')
               else walk_list L P convertIframes n conv A idx
                      (parseDOM P (preprocess (data entry)))))"

fun convert :: "lib \<Rightarrow> provider \<Rightarrow> bool \<Rightarrow> nat \<Rightarrow> archive \<Rightarrow> error + node list" where
  "convert L P convertIframes 0 A =
     convert_with L P convertIframes 0 (\<lambda>A'. Inl OutOfFuel) A"
| "convert L P convertIframes (Suc n) A =
     convert_with L P convertIframes (Suc n) (convert L P convertIframes n) A"

text \<open>
  \<^verbatim>\<open>convert\<close> for a text: \<^verbatim>\<open>mhtml2html.parse(mhtml)\<close> is called without options. An object
  without \<^verbatim>\<open>frames\<close> fails the first assertion.
\<close>

definition convert_text ::
  "lib \<Rightarrow> provider \<Rightarrow> bool \<Rightarrow> nat \<Rightarrow> string \<Rightarrow> error + node list" where
  "convert_text L P convertIframes n mhtml =
     (case parse L False (parseDOM P) mhtml of
        Inl e \<Rightarrow> Inl e
      | Inr (Inl A) \<Rightarrow> convert L P convertIframes n A
      | Inr (Inr d) \<Rightarrow> Inl (Error ''MHTML error: invalid frames''))"

subsection \<open>The resolver in the words of the specification\<close>








text \<open>Tables and texts of the concrete runs below.\<close>

definition png :: asset where
  "png = \<lparr>encoding = ''7bit'', type = ''image/png'', data = ''x'', id = None\<rparr>"

definition one_image :: "(string \<times> asset) list" where
  "one_image = [(''http://e.com/x.png'', png)]"




text \<open>
  A provider for the concrete runs: it returns a given tree for the text it is handed,
  and serialises a node as the text it holds.
\<close>

fun text_content :: "node \<Rightarrow> string" where
  "text_content (Text t) = t"
| "text_content (Comment t) = []"
| "text_content (Element t a cs tc) = concat (map text_content cs)"

definition fixed_page :: "node list \<Rightarrow> provider" where
  "fixed_page page =
     \<lparr>parseDOM = (\<lambda>html. page), innerHTML = text_content,
      outerHTML = (\<lambda>d. concat (map text_content d))\<rparr>"

definition html_asset :: asset where
  "html_asset =
     \<lparr>encoding = ''7bit'', type = ''text/html'',
      data = ''<html><head><link rel=\"stylesheet\" href=\"style.css\"></head><body>Hello</body></html>'',
      id = None\<rparr>"

definition css_asset :: asset where
  "css_asset =
     \<lparr>encoding = ''7bit'', type = ''text/css'', data = ''body { color: red; }'', id = None\<rparr>"

definition page :: "string \<Rightarrow> node list" where
  "page href =
     [Element ''HTML'' []
        [Element ''HEAD'' []
           [Element ''LINK'' [(''rel'', ''stylesheet''), (''href'', href)] [] None] None,
         Element ''BODY'' [] [Text ''Hello''] None] None]"

definition site :: archive where
  "site =
     \<lparr>frames = [],
      media = [(''http://e.com/p/index.html'', html_asset),
               (''http://e.com/p/style.css'', css_asset)],
      index = Some ''http://e.com/p/index.html''\<rparr>"

text \<open>Invariant I1 of the specification.\<close>

definition I1 :: "archive \<Rightarrow> bool" where
  "I1 A \<longleftrightarrow>
     (case index A of
        None \<Rightarrow> False
      | Some idx \<Rightarrow> map_option type (map_of (media A) idx) = Some ''text/html'')"

text \<open>A nested call that throws an \<open>Error\<close> only for an archive violating I1.\<close>

definition asserting :: "(archive \<Rightarrow> error + node list) \<Rightarrow> bool" where
  "asserting conv \<longleftrightarrow> (\<forall>A' msg. conv A' = Inl (Error msg) \<longrightarrow> \<not> I1 A')"

text \<open>
  A stylesheet link that \<^verbatim>\<open>convert\<close> replaces: its \<^verbatim>\<open>href\<close> is, as it stands, a key of
  \<^verbatim>\<open>media\<close> for a \<^verbatim>\<open>text/css\<close> asset. \<open>nodes_of\<close> lists a node and its descendants.
\<close>

definition linked_stylesheet :: "archive \<Rightarrow> node \<Rightarrow> bool" where
  "linked_stylesheet A e \<longleftrightarrow>
     is_element e \<and> tagName e = ''LINK'' \<and> getAttribute e ''rel'' = Some ''stylesheet'' \<and>
     map_option type (map_of (media A) (property_key (getAttribute e ''href''))) = Some ''text/css''"


text \<open>
  What the tables of the parser hold, in terms of the parts read so far: \<^verbatim>\<open>media\<close> maps a
  location to the first part that carries it, unless the location is the name of an
  inherited member, which is never a key; \<^verbatim>\<open>frames\<close> maps an identifier to the last part
  that carries it.
\<close>

fun first_index :: "('a \<Rightarrow> bool) \<Rightarrow> 'a list \<Rightarrow> nat option" where
  "first_index Q [] = None"
| "first_index Q (x # xs) = (if Q x then Some 0 else map_option Suc (first_index Q xs))"

fun last_index :: "('a \<Rightarrow> bool) \<Rightarrow> 'a list \<Rightarrow> nat option" where
  "last_index Q [] = None"
| "last_index Q (x # xs) =
     (case last_index Q xs of Some i \<Rightarrow> Some (Suc i) | None \<Rightarrow> if Q x then Some 0 else None)"

definition media_first :: "pstate \<Rightarrow> bool" where
  "media_first s \<longleftrightarrow>
     (\<forall>url. map_of (media_refs s) url =
        (if url \<in> set Object_prototype then None
         else first_index (\<lambda>p. fst p = Some url) (parts s)))"

definition frames_last :: "pstate \<Rightarrow> bool" where
  "frames_last s \<longleftrightarrow>
     (\<forall>cid. map_of (frames_refs s) cid = last_index (\<lambda>p. id (snd p) = Some cid) (parts s))"

text \<open>An archive with two parts of the same location and the same identifier.\<close>

definition twice :: string where
  "twice =
     ''Content-Type: multipart/related; boundary=B\<newline>\<newline>'' @
     ''--B\<newline>Content-Type: text/html\<newline>Content-Transfer-Encoding: 7bit\<newline>'' @
     ''Content-Location: http://e.com/\<newline>Content-ID: <f>\<newline>\<newline>first\<newline>'' @
     ''--B\<newline>Content-Type: text/html\<newline>Content-Transfer-Encoding: 7bit\<newline>'' @
     ''Content-Location: http://e.com/\<newline>Content-ID: <f>\<newline>\<newline>second\<newline>'' @
     ''--B--\<newline>''"

definition first_part :: asset where
  "first_part =
     \<lparr>encoding = ''7bit'', type = ''text/html'', data = ''first\<newline>'', id = Some ''<f>''\<rparr>"

definition second_part :: asset where
  "second_part =
     \<lparr>encoding = ''7bit'', type = ''text/html'', data = ''second\<newline>'', id = Some ''<f>''\<rparr>"

definition twice_end :: pstate where
  "twice_end =
     \<lparr>state = MHTML_END, input = [],
      headers = [(''Content-Type'', ''multipart/related; boundary=B'')], content = [],
      key = Some ''Content-ID'', boundary = ''B'', part_encoding = ''7bit'',
      doc_index = Some ''http://e.com/'',
      parts = [(Some ''http://e.com/'', first_part), (Some ''http://e.com/'', second_part)],
      media_refs = [(''http://e.com/'', 0)], frames_refs = [(''<f>'', 1)]\<rparr>"

text \<open>
  The two normal forms of line endings: every line ends with a line feed alone, or every
  line ends with carriage return and line feed.
\<close>

fun to_lf :: "string \<Rightarrow> string" where
  "to_lf (c # d # cs) =
     (if c = CHR 0x0D \<and> d = CHR 0x0A then d # to_lf cs else c # to_lf (d # cs))"
| "to_lf cs = cs"

definition to_crlf :: "string \<Rightarrow> string" where
  "to_crlf s = concat (map (\<lambda>c. if c = CHR 0x0A then [CHR 0x0D, c] else [c]) (to_lf s))"

definition minimal :: string where
  "minimal =
     ''MIME-Version: 1.0\<newline>'' @
     ''Content-Type: multipart/related; boundary=\"----boundary\"\<newline>\<newline>'' @
     ''------boundary\<newline>Content-Type: text/html\<newline>'' @
     ''Content-Transfer-Encoding: 7bit\<newline>Content-Location: http://example.com/\<newline>'' @
     ''\<newline><html>Hi</html>\<newline>------boundary--\<newline>''"

text \<open>An archive whose image part is no base64 text, and the page of its first part.\<close>

definition broken :: string where
  "broken =
     ''Content-Type: multipart/related; boundary=B\<newline>\<newline>'' @
     ''--B\<newline>Content-Type: text/html\<newline>Content-Transfer-Encoding: 7bit\<newline>'' @
     ''Content-Location: http://e.com/\<newline>\<newline>'' @
     ''<body style=\"background:url(http://e.com/i.png)\"></body>\<newline>'' @
     ''--B\<newline>Content-Type: image/png\<newline>Content-Transfer-Encoding: base64\<newline>'' @
     ''Content-Location: http://e.com/i.png\<newline>\<newline>!!!!\<newline>'' @
     ''--B--\<newline>''"

definition broken_page :: "node list" where
  "broken_page =
     [Element ''HTML'' []
        [Element ''HEAD'' [] [] None,
         Element ''BODY'' [(''style'', ''background:url(http://e.com/i.png)'')] [] None] None]"

definition broken_archive :: archive where
  "broken_archive =
     \<lparr>frames = [],
      media =
        [(''http://e.com/'',
          \<lparr>encoding = ''7bit'', type = ''text/html'',
             data = ''<body style=\"background:url(http://e.com/i.png)\"></body>\<newline>'',
             id = None\<rparr>),
         (''http://e.com/i.png'',
          \<lparr>encoding = ''base64'', type = ''image/png'', data = ''!!!!'', id = None\<rparr>)],
      index = Some ''http://e.com/''\<rparr>"

section \<open>Properties\<close>

subsection \<open>The data-URI conversion\<close>

text \<open>
  C6. For every asset record, \<^verbatim>\<open>convertAssetToDataURI\<close> returns: for the transfer
  encoding \<^verbatim>\<open>quoted-printable\<close>, the text \<^verbatim>\<open>data:<type>;utf8,\<close> followed by the escaped
  quoted-printable-decoded data; for \<^verbatim>\<open>base64\<close>, \<^verbatim>\<open>data:<type>;base64,\<close> followed by the
  stored data as it is; for any other encoding, \<^verbatim>\<open>data:<type>;base64,\<close> followed by the
  base64 encoding of the stored data (and it throws exactly when the encoder throws).
\<close>

theorem convertAssetToDataURI_by_encoding:
  "(encoding a = ''quoted-printable'' \<longrightarrow>
      convertAssetToDataURI L a =
        Inr (''data:'' @ type a @ '';utf8,'' @ escape L (QuotedPrintable_decode L (data a)))) \<and>
   (encoding a = ''base64'' \<longrightarrow>
      convertAssetToDataURI L a = Inr (''data:'' @ type a @ '';base64,'' @ data a)) \<and>
   (encoding a \<noteq> ''quoted-printable'' \<and> encoding a \<noteq> ''base64'' \<longrightarrow>
      convertAssetToDataURI L a =
        (case Base64_encode L (data a) of
           None \<Rightarrow> Inl InvalidCharacterError
         | Some b \<Rightarrow> Inr (''data:'' @ type a @ '';base64,'' @ b)))"
  by (simp add: convertAssetToDataURI_def)

theorem convertAssetToDataURI_by_encoding_witness:
  "convertAssetToDataURI node
     \<lparr>encoding = ''quoted-printable'', type = ''text/plain'', data = ''a=3Db c'', id = None\<rparr>
     = Inr ''data:text/plain;utf8,a%3Db%20c'' \<and>
   convertAssetToDataURI node
     \<lparr>encoding = ''base64'', type = ''image/png'', data = ''eA=='', id = None\<rparr>
     = Inr ''data:image/png;base64,eA=='' \<and>
   convertAssetToDataURI node
     \<lparr>encoding = ''7bit'', type = ''image/png'', data = ''x'', id = None\<rparr>
     = Inr ''data:image/png;base64,eA==''"
proof -
  let ?q = "\<lparr>encoding = ''quoted-printable'', type = ''text/plain'', data = ''a=3Db c'',
             id = None\<rparr>"
  let ?b = "\<lparr>encoding = ''base64'', type = ''image/png'', data = ''eA=='', id = None\<rparr>"
  let ?o = "\<lparr>encoding = ''7bit'', type = ''image/png'', data = ''x'', id = None\<rparr>"
  have q: "escape node (QuotedPrintable_decode node ''a=3Db c'') = ''a%3Db%20c''"
    by code_simp
  have o: "Base64_encode node ''x'' = Some ''eA==''"
    by code_simp
  from convertAssetToDataURI_by_encoding [of ?q node] q
  have 1: "convertAssetToDataURI node ?q = Inr ''data:text/plain;utf8,a%3Db%20c''"
    by simp
  from convertAssetToDataURI_by_encoding [of ?b node]
  have 2: "convertAssetToDataURI node ?b = Inr ''data:image/png;base64,eA==''"
    by simp
  from convertAssetToDataURI_by_encoding [of ?o node] o
  have 3: "convertAssetToDataURI node ?o = Inr ''data:image/png;base64,eA==''"
    by simp
  from 1 2 3 show ?thesis by simp
qed

subsection \<open>The URL resolver\<close>









subsection \<open>The CSS rewriter\<close>

lemma index_in_prefix: "prefix t s \<Longrightarrow> index_in t s = Some 0"
  by (cases s) auto

text \<open>
  The loop of \<^verbatim>\<open>replaceReferences\<close> is left at once when the first match is at index 0:
  the condition \<^verbatim>\<open>(i = css.indexOf('url(', i)) > 0\<close> fails there, and the text comes back
  as it is.
\<close>

lemma replaceReferences_leading_url:
  "prefix ''url('' css \<Longrightarrow> replaceReferences L (Suc n) m base css = Inr css"
  by (simp add: replaceReferences_def replace_step_def indexOf_def index_in_prefix)

text \<open>
  C10. For a CSS text that begins with \<^verbatim>\<open>url(\<close> at offset 0 the rewriter leaves the leading
  reference unchanged, and \<^verbatim>\<open>url(\<close> tokens at any later offset are processed normally.
  The code does not process them. In the text \<^verbatim>\<open>url(x.png) b{c:url(x.png)}\<close> the reference
  \<^verbatim>\<open>x.png\<close> resolves, and the text comes back unchanged, the second token with it; the
  same text after one space has both tokens rewritten.
\<close>

theorem replaceReferences_leading_url_later_tokens:
  "findAsset node one_image ''http://e.com/'' ''x.png''
     = Some (''http://e.com/x.png'', Own png) \<and>
   replaceReferences node 5 one_image ''http://e.com/'' ''url(x.png) b{c:url(x.png)}''
     = Inr ''url(x.png) b{c:url(x.png)}'' \<and>
   replaceReferences node 5 one_image ''http://e.com/'' '' url(x.png) b{c:url(x.png)}''
     = Inr ('' url('' @ embeddedAsset (Own png) ''eA=='' @ '') b{c:url('' @
            embeddedAsset (Own png) ''eA=='' @ '')}'')"
  by code_simp




subsection \<open>The assertions of \<^verbatim>\<open>convert\<close>\<close>

lemma decoded_data_error: "decoded_data L entry = Inl e \<Longrightarrow> e = InvalidCharacterError"
  by (auto simp: decoded_data_def split: if_splits option.splits)

lemma replace_step_error:
  "replace_step L pcss m base i css = Inl e \<Longrightarrow>
   e = InvalidCharacterError \<or> (\<exists>path. pcss path = Inl e)"
  by (auto simp: replace_step_def assetData_def Let_def map_sum_Inl
        split: option.splits if_splits prod.splits sum.splits property.splits
        dest: decoded_data_error)

lemma css_no_Error:
  "processCSS L n m path \<noteq> Inl (Error msg)"
  "replace_loop L n m base i css \<noteq> Inl (Error msg)"
proof (induction L n m path and L n m base i css rule: processCSS_replace_loop.induct)
  case (1 L m path)
  show ?case by simp
next
  case (2 L n m path)
  then show ?case
    by (auto simp: map_sum_Inl split: option.splits sum.splits property.splits
          dest: decoded_data_error)
next
  case (3 L m base i css)
  show ?case by simp
next
  case (4 L n m base i css)
  show ?case
  proof
    assume a: "replace_loop L (Suc n) m base i css = Inl (Error msg)"
    show False
    proof (cases "replace_step L (processCSS L n m) m base i css")
      case (Inl e)
      with a have "e = Error msg" by simp
      with replace_step_error [OF Inl] "4.IH"(1) show False by auto
    next
      case (Inr st)
      with a "4.IH"(2) show False by (cases st) auto
    qed
  qed
qed

lemma updateInlineStyle_no_Error: "updateInlineStyle L n m b e \<noteq> Inl (Error msg)"
  using css_no_Error(2) [of L n m b 0]
  by (auto simp: updateInlineStyle_def replaceReferences_def map_sum_Inl split: option.splits)

lemma nested_archive_I1:
  "type frame = ''text/html'' \<Longrightarrow>
   I1 \<lparr>frames = fs, media = AList.update k frame m, index = Some k\<rparr>"
  by (simp add: I1_def update_conv')

lemma dispatch_no_Error:
  assumes "asserting conv"
  shows "dispatch L P ci n conv A idx href src c \<noteq> Inl (Error msg)"
proof
  assume d: "dispatch L P ci n conv A idx href src c = Inl (Error msg)"
  consider "tagName c = ''HEAD''" | "tagName c \<noteq> ''HEAD''" "tagName c = ''LINK''"
    | "tagName c \<notin> {''HEAD'', ''LINK''}" "tagName c = ''STYLE''"
    | "tagName c \<notin> {''HEAD'', ''LINK'', ''STYLE''}" "tagName c = ''IMG''"
    | "tagName c \<notin> {''HEAD'', ''LINK'', ''STYLE'', ''IMG''}" "tagName c = ''IFRAME''"
    | "tagName c \<notin> {''HEAD'', ''LINK'', ''STYLE'', ''IMG'', ''IFRAME''}"
    by auto
  then show False
  proof cases
    case 1
    with d show False by (simp add: dispatch_def)
  next
    case 2
    with d css_no_Error(1) [of L n "media A" "property_key href" msg] show False
      by (auto simp: dispatch_def visit_link_def split: if_splits sum.splits)
  next
    case 3
    with d css_no_Error(2) [of L n "media A" idx 0 "innerHTML P c" msg] show False
      by (auto simp: dispatch_def visit_style_def replaceReferences_def split: sum.splits)
  next
    case 4
    with d show False
      by (auto simp: dispatch_def updateInlineStyle_no_Error dest!: visit_img_Inl)
  next
    case 5
    with d have "visit_iframe L P ci conv A src c = Inl (Error msg)"
      by (simp add: dispatch_def)
    then obtain s frame where "type frame = ''text/html''"
      and "conv \<lparr>frames = frames A, media = AList.update (frame_id s) frame (media A),
                  index = Some (frame_id s)\<rparr> = Inl (Error msg)"
      by (auto simp: visit_iframe_def has_type_def
            split: option.splits if_splits sum.splits property.splits)
    with assms nested_archive_I1 show False unfolding asserting_def by blast
  next
    case 6
    with d show False
      by (auto simp: dispatch_def map_sum_Inl updateInlineStyle_no_Error)
  qed
qed

lemma walk_no_Error:
  "asserting conv \<Longrightarrow> walk L P ci n conv A idx child \<noteq> Inl (Error msg)"
  "asserting conv \<Longrightarrow> walk_list L P ci n conv A idx cs \<noteq> Inl (Error msg)"
proof (induction L P ci n conv A idx child and L P ci n conv A idx cs
    rule: walk_walk_list.induct)
  case (1 L P ci n conv A idx child)
  have v: "visit L P ci n conv A idx child \<noteq> Inl (Error msg)"
    using dispatch_no_Error [OF "1.prems"] by (simp add: visit_def)
  show ?case
  proof
    assume a: "walk L P ci n conv A idx child = Inl (Error msg)"
    show False
    proof (cases "visit L P ci n conv A idx child")
      case (Inl e)
      with a v show False by (simp add: walk.simps)
    next
      case (Inr r)
      with a "1.IH" [OF Inr "1.prems"] show False
        by (auto simp: walk.simps split: sum.splits)
    qed
  qed
next
  case (2 L P ci n conv A idx)
  show ?case by simp
next
  case (3 L P ci n conv A idx c cs)
  show ?case
  proof
    assume a: "walk_list L P ci n conv A idx (c # cs) = Inl (Error msg)"
    show False
    proof (cases "walk L P ci n conv A idx c")
      case (Inl e)
      with a "3.IH"(1) [OF "3.prems"] show False by simp
    next
      case (Inr c')
      with a "3.IH"(2) [OF Inr "3.prems"] show False by (simp add: map_sum_Inl)
    qed
  qed
qed

lemma convert_with_Error:
  assumes "asserting conv" and "convert_with L P ci n conv A = Inl (Error msg)"
  shows "\<not> I1 A"
  using assms(2) walk_no_Error(2) [OF assms(1)]
  by (auto simp: convert_with_def I1_def get_def
        split: option.splits if_splits property.splits)

lemma convert_asserting: "asserting (convert L P ci n)"
proof (induction n)
  case 0
  have "asserting (\<lambda>A'. Inl OutOfFuel)" by (simp add: asserting_def)
  from convert_with_Error [OF this] show ?case by (auto simp: asserting_def)
next
  case (Suc n)
  from convert_with_Error [OF Suc.IH] show ?case by (auto simp: asserting_def)
qed

lemma convert_Error: "convert L P ci n A = Inl (Error msg) \<Longrightarrow> \<not> I1 A"
  using convert_asserting [of L P ci n] by (auto simp: asserting_def)

lemma convert_not_I1:
  "\<not> I1 A \<Longrightarrow> convert L P ci n A = Inl (Error ''MHTML error: invalid index'')"
  by (cases n) (auto simp: convert_with_def I1_def get_def split: option.splits)

text \<open>
  C1. For every parsed archive \<open>A\<close> and all options, \<^verbatim>\<open>convert\<close> fails with the error
  \<^verbatim>\<open>MHTML error: invalid index\<close> if and only if \<open>A\<close> violates I1, that is, \<^verbatim>\<open>A.index\<close> is
  no key of \<^verbatim>\<open>A.media\<close> or \<^verbatim>\<open>A.media[A.index]\<close> has not the type \<^verbatim>\<open>text/html\<close>; when it
  fails so, no document is produced.
\<close>

theorem convert_invalid_archive_iff:
  "(convert L P convertIframes n A = Inl (Error ''MHTML error: invalid index'') \<longleftrightarrow> \<not> I1 A) \<and>
   (\<not> I1 A \<longrightarrow> (\<forall>D. convert L P convertIframes n A \<noteq> Inr D))"
  using convert_Error [of L P convertIframes n A] convert_not_I1 [of A L P convertIframes n]
  by auto

theorem convert_invalid_archive_iff_witness:
  "\<not> I1 (site\<lparr>index := Some ''http://e.com/p/style.css''\<rparr>) \<and>
   convert node (fixed_page (page ''style.css'')) False 3
     (site\<lparr>index := Some ''http://e.com/p/style.css''\<rparr>)
     = Inl (Error ''MHTML error: invalid index'') \<and>
   I1 site \<and>
   convert node (fixed_page (page ''style.css'')) False 3 site
     \<noteq> Inl (Error ''MHTML error: invalid index'')"
proof -
  have 1: "\<not> I1 (site\<lparr>index := Some ''http://e.com/p/style.css''\<rparr>)" by code_simp
  have 2: "I1 site" by code_simp
  from 1 2
    convert_invalid_archive_iff [of node "fixed_page (page ''style.css'')" False 3
      "site\<lparr>index := Some ''http://e.com/p/style.css''\<rparr>"]
    convert_invalid_archive_iff [of node "fixed_page (page ''style.css'')" False 3 site]
  show ?thesis by simp
qed

subsection \<open>Stylesheet links\<close>


lemma getAttribute_set_childNodes [simp]:
  "getAttribute (set_childNodes e cs) a = getAttribute e a"
  by (cases e) simp_all



lemma linked_set_childNodes [simp]:
  "linked_stylesheet A (set_childNodes c cs) = linked_stylesheet A c"
  by (simp add: linked_stylesheet_def)
















subsection \<open>The tables of the parser\<close>

lemma first_index_append:
  "first_index Q (xs @ [x]) =
     (case first_index Q xs of Some i \<Rightarrow> Some i | None \<Rightarrow> if Q x then Some (length xs) else None)"
  by (induction xs) (auto split: option.splits)

lemma last_index_append:
  "last_index Q (xs @ [x]) = (if Q x then Some (length xs) else last_index Q xs)"
  by (induction xs) (auto split: option.splits)

lemma first_index_update:
  "Q y = Q (xs ! i) \<Longrightarrow> first_index Q (xs[i := y]) = first_index Q xs"
  by (induction xs arbitrary: i) (auto split: nat.splits)

lemma last_index_update:
  "Q y = Q (xs ! i) \<Longrightarrow> last_index Q (xs[i := y]) = last_index Q xs"
  by (induction xs arbitrary: i) (auto split: nat.splits)

lemma first_index_iff:
  "first_index Q xs = Some j \<longleftrightarrow> j < length xs \<and> Q (xs ! j) \<and> (\<forall>k<j. \<not> Q (xs ! k))"
proof (induction xs arbitrary: j)
  case Nil
  show ?case by simp
next
  case (Cons x xs)
  show ?case
  proof (cases "Q x")
    case True
    then show ?thesis by (cases j) auto
  next
    case False
    show ?thesis
    proof (cases j)
      case 0
      with False show ?thesis by auto
    next
      case (Suc i)
      have "(\<forall>k<Suc i. \<not> Q ((x # xs) ! k)) \<longleftrightarrow> (\<forall>k<i. \<not> Q (xs ! k))"
        using False by (auto simp: less_Suc_eq_0_disj)
      with False Suc Cons.IH [of i] show ?thesis by auto
    qed
  qed
qed



lemma register_asset_parts:
  "register_asset s = Inr s' \<Longrightarrow>
   \<exists>enc ty. parts s' = parts s @ [(map_of (content s) ''Content-Location'',
       \<lparr>encoding = enc, type = ty, data = [], id = map_of (content s) ''Content-ID''\<rparr>)] \<and>
     frames_refs s' = (case map_of (content s) ''Content-ID'' of
                         None \<Rightarrow> frames_refs s
                       | Some i \<Rightarrow> AList.update i (length (parts s)) (frames_refs s)) \<and>
     media_refs s' = (case map_of (content s) ''Content-Location'' of
                        None \<Rightarrow> media_refs s
                      | Some l \<Rightarrow> if get (media_refs s) l = None
                                  then AList.update l (length (parts s)) (media_refs s)
                                  else media_refs s)"
  by (auto simp: register_asset_def Let_def split: if_splits option.splits)

lemma register_asset_tables:
  assumes "register_asset s = Inr s'" and "media_first s" and "frames_last s"
  shows "media_first s' \<and> frames_last s'"
proof -
  from register_asset_parts [OF assms(1)] obtain enc ty
    where p: "parts s' = parts s @ [(map_of (content s) ''Content-Location'',
        \<lparr>encoding = enc, type = ty, data = [], id = map_of (content s) ''Content-ID''\<rparr>)]"
      and f: "frames_refs s' = (case map_of (content s) ''Content-ID'' of
                         None \<Rightarrow> frames_refs s
                       | Some i \<Rightarrow> AList.update i (length (parts s)) (frames_refs s))"
      and m: "media_refs s' = (case map_of (content s) ''Content-Location'' of
                        None \<Rightarrow> media_refs s
                      | Some l \<Rightarrow> if get (media_refs s) l = None
                                  then AList.update l (length (parts s)) (media_refs s)
                                  else media_refs s)"
    by blast
  have "media_first s'"
    unfolding media_first_def
  proof
    fix url
    from assms(2) have old: "map_of (media_refs s) url
        = (if url \<in> set Object_prototype then None
           else first_index (\<lambda>p. fst p = Some url) (parts s))"
      by (simp add: media_first_def)
    show "map_of (media_refs s') url
        = (if url \<in> set Object_prototype then None
           else first_index (\<lambda>p. fst p = Some url) (parts s'))"
    proof (cases "map_of (content s) ''Content-Location''")
      case None
      with m p old show ?thesis by (simp add: first_index_append split: option.splits)
    next
      case (Some l)
      show ?thesis
      proof (cases "l = url")
        case True
        with Some m p old show ?thesis
          by (auto simp: first_index_append update_conv' get_def split: option.splits if_splits)
      next
        case False
        with Some m p old show ?thesis
          by (auto simp: first_index_append update_conv' get_def split: option.splits if_splits)
      qed
    qed
  qed
  moreover have "frames_last s'"
    unfolding frames_last_def
  proof
    fix cid
    from assms(3) have old: "map_of (frames_refs s) cid
        = last_index (\<lambda>p. id (snd p) = Some cid) (parts s)"
      by (simp add: frames_last_def)
    show "map_of (frames_refs s') cid = last_index (\<lambda>p. id (snd p) = Some cid) (parts s')"
      using f p old
      by (auto simp: last_index_append update_conv' split: option.splits)
  qed
  ultimately show ?thesis ..
qed

lemma tables_cong:
  "media_refs s' = media_refs s \<Longrightarrow> parts s' = parts s \<Longrightarrow> media_first s' = media_first s"
  "frames_refs s' = frames_refs s \<Longrightarrow> parts s' = parts s \<Longrightarrow> frames_last s' = frames_last s"
  by (simp_all add: media_first_def frames_last_def)

lemma step_tables:
  assumes "step L htmlOnly pd s = Inr (Continue s')" and "media_first s \<and> frames_last s"
  shows "media_first s' \<and> frames_last s'"
proof (cases "state s")
  case MHTML_HEADERS
  with assms(1) have "media_refs s' = media_refs s" "frames_refs s' = frames_refs s"
    "parts s' = parts s"
    by (auto simp: step_def step_headers_def map_sum_Inr
          split: sum.splits if_splits option.splits prod.splits)
  with assms(2) tables_cong [of s' s] show ?thesis by simp
next
  case MTHML_CONTENT
  with assms(1) have c: "step_content L s = Inr s'" by (simp add: step_def map_sum_Inr)
  show ?thesis
  proof (cases "\<exists>r. register_asset s = Inr r \<and> media_refs s' = media_refs r \<and>
                  frames_refs s' = frames_refs r \<and> parts s' = parts r")
    case True
    then obtain r where r: "register_asset s = Inr r" "media_refs s' = media_refs r"
      "frames_refs s' = frames_refs r" "parts s' = parts r"
      by blast
    from register_asset_tables [OF r(1)] assms(2) have "media_first r \<and> frames_last r" by simp
    with r tables_cong [of s' r] show ?thesis by simp
  next
    case False
    with c have "media_refs s' = media_refs s" "frames_refs s' = frames_refs s"
      "parts s' = parts s"
      by (auto simp: step_content_def split: sum.splits if_splits prod.splits)
    with assms(2) tables_cong [of s' s] show ?thesis by simp
  qed
next
  case MHTML_DATA
  with assms(1) obtain d where s': "media_refs s' = media_refs s" "frames_refs s' = frames_refs s"
    "parts s' = (parts s)[length (parts s) - 1 :=
        (fst (parts s ! (length (parts s) - 1)),
         (snd (parts s ! (length (parts s) - 1)))\<lparr>data := d\<rparr>)]"
    by (auto simp: step_def step_data_def Let_def split: sum.splits if_splits prod.splits)
  from assms(2) s' show ?thesis
    by (simp add: media_first_def frames_last_def first_index_update last_index_update)
next
  case MHTML_END
  with assms show ?thesis by (simp add: step_def)
qed

lemma run_tables:
  "run L htmlOnly pd s = Inr (Inl s') \<Longrightarrow> media_first s \<and> frames_last s \<Longrightarrow>
   media_first s' \<and> frames_last s'"
proof (induction L htmlOnly pd s rule: run.induct)
  case (1 L htmlOnly pd s)
  show ?case
  proof (cases "state s = MHTML_END")
    case True
    with "1.prems" show ?thesis by (simp add: run.simps)
  next
    case False
    with "1.prems"(1) obtain t where t: "step L htmlOnly pd s = Inr (Continue t)"
      and r: "run L htmlOnly pd t = Inr (Inl s')"
      by (subst (asm) run.simps) (auto split: sum.splits turn.splits)
    from step_tables [OF t "1.prems"(2)] "1.IH" [OF False t refl r] show ?thesis by simp
  qed
qed

lemma parse_tables:
  assumes "run L htmlOnly pd (initial mhtml) = Inr (Inl s)"
  shows "media_first s" and "frames_last s"
  using run_tables [OF assms] by (simp_all add: media_first_def frames_last_def initial_def)

lemma archive_of_lookup:
  "map_of (media (archive_of s)) url = map_option (\<lambda>r. snd (parts s ! r)) (map_of (media_refs s) url)"
  "map_of (frames (archive_of s)) cid = map_option (\<lambda>r. snd (parts s ! r)) (map_of (frames_refs s) cid)"
  by (simp_all add: archive_of_def map_of_map)

text \<open>
  C5. When two or more parts carry the same \<^verbatim>\<open>Content-Location\<close>, the archive that
  \<^verbatim>\<open>parse\<close> returns maps that URL in \<^verbatim>\<open>media\<close> to the asset of the first such part, with
  the body of that part as its data; later parts with the same location are not
  registered in \<^verbatim>\<open>media\<close>. Here \<open>parts s\<close> are the assets of the parts in the order of the
  stream, as they are when the parser stops, each with its location.
\<close>

theorem parse_media_first_part:
  assumes "run L htmlOnly pd (initial mhtml) = Inr (Inl s)"
    and "j < length (parts s)" and "fst (parts s ! j) = Some url"
    and "\<forall>k<j. fst (parts s ! k) \<noteq> Some url" and "url \<notin> set Object_prototype"
  shows "parse L htmlOnly pd mhtml = Inr (Inl (archive_of s)) \<and>
         map_of (media_refs s) url = Some j \<and>
         map_of (media (archive_of s)) url = Some (snd (parts s ! j))"
proof -
  from parse_tables(1) [OF assms(1)] assms(5)
  have "map_of (media_refs s) url = first_index (\<lambda>p. fst p = Some url) (parts s)"
    by (simp add: media_first_def)
  also from assms(2-4) have "\<dots> = Some j" by (simp add: first_index_iff)
  finally have "map_of (media_refs s) url = Some j" .
  with assms(1) show ?thesis by (simp add: parse_def archive_of_lookup)
qed

theorem parse_media_first_part_witness:
  "run node False (\<lambda>html. html) (initial twice) = Inr (Inl twice_end) \<and>
   fst (parts twice_end ! 0) = Some ''http://e.com/'' \<and>
   fst (parts twice_end ! 1) = Some ''http://e.com/'' \<and>
   map_of (media (archive_of twice_end)) ''http://e.com/'' = Some first_part"
proof -
  have 1: "run node False (\<lambda>html. html) (initial twice) = Inr (Inl twice_end)" by code_simp
  have 2: "0 < length (parts twice_end)" "fst (parts twice_end ! 0) = Some ''http://e.com/''"
    "\<forall>k<0. fst (parts twice_end ! k) \<noteq> Some ''http://e.com/''"
    "snd (parts twice_end ! 0) = first_part"
    "fst (parts twice_end ! 1) = Some ''http://e.com/''"
    by (simp_all add: twice_end_def)
  have 3: "''http://e.com/'' \<notin> set Object_prototype" by (simp add: Object_prototype_def)
  from parse_media_first_part [OF 1 2(1,2,3) 3] 1 2 show ?thesis by simp
qed



subsection \<open>Line endings\<close>

lemma getLine_raw_line:
  "CHR 0x0A \<notin> set t \<Longrightarrow> getLine_raw (t @ CHR 0x0A # rest) = Inr (t @ [CHR 0x0A], rest)"
  by (induction t) auto

lemma getLine_line:
  "CHR 0x0A \<notin> set t \<Longrightarrow>
   getLine L enc (t @ CHR 0x0A # rest) = Inr (decoded_line L enc (t @ [CHR 0x0A]), rest)"
  by (simp add: getLine_def getLine_raw_line)

lemma dropWhile_all: "\<forall>c \<in> set w. P c \<Longrightarrow> dropWhile P (w @ s) = dropWhile P s"
  by (induction w) auto

lemma js_trim_append_space:
  assumes "\<forall>c \<in> set w. js_space c"
  shows "js_trim (s @ w) = js_trim s"
proof (cases "\<forall>c \<in> set s. js_space c")
  case True
  with assms have h: "dropWhile js_space (s @ w) = []" "dropWhile js_space s = []"
    by (auto simp: dropWhile_eq_Nil_conv)
  show ?thesis by (simp only: js_trim_def h)
next
  case False
  then have "dropWhile js_space (s @ w) = dropWhile js_space s @ w"
    by (auto simp: dropWhile_append1)
  moreover from assms have "\<forall>c \<in> set (rev w). js_space c" by simp
  ultimately show ?thesis
    by (simp add: js_trim_def dropWhile_all)
qed

lemma index_in_char_absent: "c \<notin> set w \<Longrightarrow> index_in [c] w = None"
  by (induction w) auto

lemma index_in_char_append:
  "c \<notin> set w \<Longrightarrow> index_in [c] (t @ w) = index_in [c] t"
  by (induction t) (auto simp: index_in_char_absent)

lemma js_includes_sublist: "js_includes s b \<longleftrightarrow> sublist b s"
  unfolding js_includes_def
  by (induction s) (auto simp: sublist_Cons_right)

lemma sublist_append_disjoint:
  assumes "set b \<inter> set w = {}" and "b \<noteq> []"
  shows "sublist b (t @ w) \<longleftrightarrow> sublist b t"
proof
  assume "sublist b (t @ w)"
  then consider "sublist b t" | "sublist b w"
    | xs1 xs2 where "b = xs1 @ xs2" "suffix xs1 t" "prefix xs2 w"
    by (auto simp: sublist_append)
  then show "sublist b t"
  proof cases
    case 1
    then show ?thesis .
  next
    case 2
    then have "set b \<subseteq> set w" by (rule set_mono_sublist)
    with assms show ?thesis by (cases b) auto
  next
    case 3
    then have "set xs2 \<subseteq> set w" "set xs2 \<subseteq> set b" by (auto dest: set_mono_prefix)
    with assms(1) have "xs2 = []" by (cases xs2) auto
    with 3 show ?thesis by (auto intro: suffix_imp_sublist)
  qed
next
  assume "sublist b t"
  then show "sublist b (t @ w)" by (simp add: sublist_append)
qed

lemma js_includes_terminator:
  assumes "set b \<inter> set w = {}"
  shows "js_includes (t @ w) b = js_includes t b"
proof (cases "b = []")
  case True
  then show ?thesis by (simp add: js_includes_sublist)
next
  case False
  with assms show ?thesis by (simp add: js_includes_sublist sublist_append_disjoint)
qed

lemma splitHeaders_terminator:
  assumes "\<forall>c \<in> set w. js_space c" and "CHR '':'' \<notin> set w"
  shows "splitHeaders (t @ w) obj k = splitHeaders t obj k"
proof (cases "index_in '':'' t")
  case None
  with assms show ?thesis
    by (simp add: splitHeaders_def index_in_char_append js_trim_append_space
          split: option.splits)
next
  case (Some m)
  from index_in_bound [OF Some] have "m < length t" by simp
  with Some assms show ?thesis
    by (simp add: splitHeaders_def index_in_char_append js_trim_append_space)
qed

lemma blank_number: "blank s = number_is_zero s"
  by (auto simp: blank_def number_is_zero_def js_trim_def js_space_def)

lemma blank_terminator: "\<forall>c \<in> set w. js_space c \<Longrightarrow> blank (t @ w) = blank t"
  by (simp add: blank_number number_is_zero_def js_trim_append_space)

text \<open>
  C3, as the code has it. A line is read the same whether it ends with CR LF or with LF
  where the parser trims it: by the test for the end of a header block, by
  \<^verbatim>\<open>splitHeaders\<close> (key and value), by the test for the boundary and as a body line of a
  \<^verbatim>\<open>base64\<close> part. A body line of another transfer encoding is returned by \<^verbatim>\<open>getLine\<close> and
  appended to the data with its terminator, the CR included.
\<close>

theorem line_endings_where_trimmed:
  assumes "CHR 0x0A \<notin> set t"
  shows "blank (t @ [CHR 0x0D, CHR 0x0A]) = blank (t @ [CHR 0x0A]) \<and>
         splitHeaders (t @ [CHR 0x0D, CHR 0x0A]) obj k = splitHeaders (t @ [CHR 0x0A]) obj k \<and>
         (CHR 0x0D \<notin> set b \<and> CHR 0x0A \<notin> set b \<longrightarrow>
            js_includes (t @ [CHR 0x0D, CHR 0x0A]) b = js_includes (t @ [CHR 0x0A]) b) \<and>
         getLine L (Some ''base64'') (t @ [CHR 0x0D, CHR 0x0A] @ rest) = Inr (js_trim t, rest) \<and>
         getLine L (Some ''base64'') (t @ [CHR 0x0A] @ rest) = Inr (js_trim t, rest) \<and>
         getLine L None (t @ [CHR 0x0D, CHR 0x0A] @ rest) = Inr (t @ [CHR 0x0D, CHR 0x0A], rest) \<and>
         getLine L None (t @ [CHR 0x0A] @ rest) = Inr (t @ [CHR 0x0A], rest)"
proof -
  have sp: "\<forall>c \<in> set [CHR 0x0D, CHR 0x0A]. js_space c" "\<forall>c \<in> set [CHR 0x0A]. js_space c"
    by (simp_all add: js_space_def)
  have 1: "blank (t @ [CHR 0x0D, CHR 0x0A]) = blank (t @ [CHR 0x0A])"
    using sp by (simp only: blank_terminator)
  have 2: "splitHeaders (t @ [CHR 0x0D, CHR 0x0A]) obj k = splitHeaders (t @ [CHR 0x0A]) obj k"
    using sp by (simp add: splitHeaders_terminator)
  have 3: "CHR 0x0D \<notin> set b \<and> CHR 0x0A \<notin> set b \<longrightarrow>
            js_includes (t @ [CHR 0x0D, CHR 0x0A]) b = js_includes (t @ [CHR 0x0A]) b"
    by (simp add: js_includes_terminator)
  from assms have cr: "CHR 0x0A \<notin> set (t @ [CHR 0x0D])" by simp
  have 4: "getLine L enc (t @ [CHR 0x0D, CHR 0x0A] @ rest)
             = Inr (decoded_line L enc (t @ [CHR 0x0D, CHR 0x0A]), rest)" for enc
    using getLine_line [OF cr, of L enc rest] by simp
  have 5: "getLine L enc (t @ [CHR 0x0A] @ rest)
             = Inr (decoded_line L enc (t @ [CHR 0x0A]), rest)" for enc
    using getLine_line [OF assms, of L enc rest] by simp
  have 6: "js_trim (t @ [CHR 0x0D, CHR 0x0A]) = js_trim t" "js_trim (t @ [CHR 0x0A]) = js_trim t"
    using sp by (simp_all only: js_trim_append_space)
  from 1 2 3 4 5 6 show ?thesis by (simp add: decoded_line_def)
qed

theorem line_endings_where_trimmed_witness:
  "splitHeaders (''Content-Type: text/html'' @ [CHR 0x0D, CHR 0x0A]) [] None
     = Inr ([(''Content-Type'', ''text/html'')], Some ''Content-Type'') \<and>
   splitHeaders (''Content-Type: text/html'' @ [CHR 0x0A]) [] None
     = Inr ([(''Content-Type'', ''text/html'')], Some ''Content-Type'') \<and>
   js_includes (''--B'' @ [CHR 0x0D, CHR 0x0A]) ''B'' \<and>
   js_includes (''--B'' @ [CHR 0x0A]) ''B'' \<and>
   getLine node None (''Hi'' @ [CHR 0x0D, CHR 0x0A] @ ''--B'')
     = Inr (''Hi'' @ [CHR 0x0D, CHR 0x0A], ''--B'')"
proof -
  have h: "CHR 0x0A \<notin> set ''Content-Type: text/html''" "CHR 0x0A \<notin> set ''--B''"
    "CHR 0x0A \<notin> set ''Hi''" "CHR 0x0D \<notin> set ''B'' \<and> CHR 0x0A \<notin> set ''B''"
    by simp_all
  have 1: "splitHeaders (''Content-Type: text/html'' @ [CHR 0x0A]) [] None
     = Inr ([(''Content-Type'', ''text/html'')], Some ''Content-Type'')"
    by code_simp
  have 2: "js_includes (''--B'' @ [CHR 0x0A]) ''B''" by code_simp
  from line_endings_where_trimmed [OF h(1), of "[]" None "[]" node "[]"]
    line_endings_where_trimmed [OF h(2), of "[]" None "''B''" node "[]"]
    line_endings_where_trimmed [OF h(3), of "[]" None "[]" node "''--B''"]
    h 1 2
  show ?thesis by simp
qed

text \<open>
  The archive \<open>minimal\<close> in its two normal forms: both are parsed, and the data of the
  part keep the line ending of the input, so the two archives differ.
\<close>

theorem parse_line_endings_counterexample:
  "parse node False (\<lambda>html. html) (to_lf minimal)
     = Inr (Inl \<lparr>frames = [],
                  media = [(''http://example.com/'',
                            \<lparr>encoding = ''7bit'', type = ''text/html'',
                               data = ''<html>Hi</html>'' @ [CHR 0x0A], id = None\<rparr>)],
                  index = Some ''http://example.com/''\<rparr>) \<and>
   parse node False (\<lambda>html. html) (to_crlf minimal)
     = Inr (Inl \<lparr>frames = [],
                  media = [(''http://example.com/'',
                            \<lparr>encoding = ''7bit'', type = ''text/html'',
                               data = ''<html>Hi</html>'' @ [CHR 0x0D, CHR 0x0A], id = None\<rparr>)],
                  index = Some ''http://example.com/''\<rparr>) \<and>
   parse node False (\<lambda>html. html) (to_crlf minimal)
     \<noteq> parse node False (\<lambda>html. html) (to_lf minimal)"
proof -
  have 1: "parse node False (\<lambda>html. html) (to_lf minimal)
     = Inr (Inl \<lparr>frames = [],
                  media = [(''http://example.com/'',
                            \<lparr>encoding = ''7bit'', type = ''text/html'',
                               data = ''<html>Hi</html>'' @ [CHR 0x0A], id = None\<rparr>)],
                  index = Some ''http://example.com/''\<rparr>)"
    by code_simp
  have 2: "parse node False (\<lambda>html. html) (to_crlf minimal)
     = Inr (Inl \<lparr>frames = [],
                  media = [(''http://example.com/'',
                            \<lparr>encoding = ''7bit'', type = ''text/html'',
                               data = ''<html>Hi</html>'' @ [CHR 0x0D, CHR 0x0A], id = None\<rparr>)],
                  index = Some ''http://example.com/''\<rparr>)"
    by code_simp
  from 1 2 show ?thesis by simp
qed

subsection \<open>Payloads that are not well encoded\<close>

lemma read_body_lines:
  assumes "\<forall>l \<in> set ls. CHR 0x0A \<notin> set l \<and>
             \<not> js_includes (decoded_line L (Some enc) (l @ [CHR 0x0A])) b"
    and "CHR 0x0A \<notin> set c" and "js_includes (decoded_line L (Some enc) (c @ [CHR 0x0A])) b"
  shows "read_body L enc b (concat (map (\<lambda>l. l @ [CHR 0x0A]) ls) @ c @ [CHR 0x0A] @ rest) acc
         = Inr (acc @ concat (map (\<lambda>l. decoded_line L (Some enc) (l @ [CHR 0x0A])) ls), rest)"
  using assms(1)
proof (induction ls arbitrary: acc)
  case Nil
  from getLine_line [OF assms(2), of L "Some enc" rest] assms(3) show ?case
    by (subst read_body.simps) simp
next
  case (Cons l ls)
  then have l: "CHR 0x0A \<notin> set l"
    "\<not> js_includes (decoded_line L (Some enc) (l @ [CHR 0x0A])) b"
    by simp_all
  let ?rest = "concat (map (\<lambda>l. l @ [CHR 0x0A]) ls) @ c @ [CHR 0x0A] @ rest"
  from getLine_line [OF l(1), of L "Some enc" ?rest] l(2)
  have "read_body L enc b (concat (map (\<lambda>l. l @ [CHR 0x0A]) (l # ls)) @ c @ [CHR 0x0A] @ rest) acc
        = read_body L enc b ?rest (acc @ decoded_line L (Some enc) (l @ [CHR 0x0A]))"
    by (subst read_body.simps) simp
  with Cons.IH [of "acc @ decoded_line L (Some enc) (l @ [CHR 0x0A])"] Cons.prems
  show ?case by simp
qed

lemma decoded_line_no_base64:
  "decoded_line (L\<lparr>Base64_decode := dec, Base64_encode := en\<rparr>) = decoded_line L"
  by (rule ext, rule ext) (simp add: decoded_line_def)

lemma decode_unicode_no_base64:
  "decode_unicode (L\<lparr>Base64_decode := dec, Base64_encode := en\<rparr>) = decode_unicode L"
  by (rule ext) (simp add: decode_unicode_def)

lemma getLine_no_base64:
  "getLine (L\<lparr>Base64_decode := dec, Base64_encode := en\<rparr>) = getLine L"
  unfolding getLine_def decoded_line_no_base64 ..

lemma read_body_unfold:
  "getLine M (Some enc) inp = Inr (ln, rest) \<Longrightarrow>
   read_body M enc b inp acc
   = (if js_includes ln b then Inr (acc, rest) else read_body M enc b rest (acc @ ln))"
  by (simp add: read_body.simps [of M enc b inp acc])

lemma read_body_fail:
  "getLine M (Some enc) inp = Inl e \<Longrightarrow> read_body M enc b inp acc = Inl e"
  by (simp add: read_body.simps [of M enc b inp acc])

lemma read_body_no_base64_at:
  "read_body (L\<lparr>Base64_decode := dec, Base64_encode := en\<rparr>) enc b inp acc
   = read_body L enc b inp acc"
proof (induction L enc b inp acc rule: read_body.induct)
  case (1 L enc b inp acc)
  let ?L = "L\<lparr>Base64_decode := dec, Base64_encode := en\<rparr>"
  have g: "getLine ?L (Some enc) inp = getLine L (Some enc) inp"
    by (simp only: getLine_no_base64)
  show ?case
  proof (cases "getLine L (Some enc) inp")
    case (Inl e)
    with g have "getLine ?L (Some enc) inp = Inl e" by simp
    then show ?thesis using Inl by (simp only: read_body_fail)
  next
    case (Inr r)
    obtain ln rest where r: "r = (ln, rest)" by (cases r)
    from Inr r have a: "getLine L (Some enc) inp = Inr (ln, rest)" by simp
    with g have b: "getLine ?L (Some enc) inp = Inr (ln, rest)" by simp
    show ?thesis
    proof (cases "js_includes ln b")
      case True
      then show ?thesis by (simp only: read_body_unfold [OF a] read_body_unfold [OF b] if_True)
    next
      case False
      from "1.IH" [OF Inr r [symmetric] False] False
      show ?thesis by (simp only: read_body_unfold [OF a] read_body_unfold [OF b] if_False)
    qed
  qed
qed

lemma read_body_no_base64:
  "read_body (L\<lparr>Base64_decode := dec, Base64_encode := en\<rparr>) = read_body L"
  by (intro ext) (rule read_body_no_base64_at)

lemma step_no_base64:
  "step (L\<lparr>Base64_decode := dec, Base64_encode := en\<rparr>) htmlOnly pd s = step L htmlOnly pd s"
  unfolding step_def step_headers_def step_content_def step_data_def
    getLine_no_base64 read_body_no_base64 decode_unicode_no_base64 ..

lemma run_no_base64:
  "run (L\<lparr>Base64_decode := dec, Base64_encode := en\<rparr>) htmlOnly pd s = run L htmlOnly pd s"
proof (induction L htmlOnly pd s rule: run.induct)
  case (1 L htmlOnly pd s)
  let ?L = "L\<lparr>Base64_decode := dec, Base64_encode := en\<rparr>"
  note l = run.simps [of ?L htmlOnly pd s] and r = run.simps [of L htmlOnly pd s]
  show ?case
  proof (cases "state s = MHTML_END")
    case True
    then show ?thesis by (simp only: l r if_True simp_thms)
  next
    case False
    show ?thesis
    proof (cases "step L htmlOnly pd s")
      case (Inl e)
      with False show ?thesis
        by (simp only: l r if_False step_no_base64 sum.case simp_thms)
    next
      case (Inr t)
      show ?thesis
      proof (cases t)
        case (Continue s')
        with False Inr "1.IH" [OF False Inr Continue] show ?thesis
          by (simp only: l r if_False step_no_base64 sum.case turn.case simp_thms)
      next
        case (Return d)
        with False Inr show ?thesis
          by (simp only: l r if_False step_no_base64 sum.case turn.case simp_thms)
      qed
    qed
  qed
qed

text \<open>
  C8, as the code has it. The body of a part is kept as it is read: the lines up to the
  first line that includes the boundary, each as \<^verbatim>\<open>getLine\<close> returns it, put together;
  whatever the lines hold, the reader returns and goes on behind the boundary line. A
  line of a \<^verbatim>\<open>base64\<close> part is only trimmed, and \<^verbatim>\<open>parse\<close> calls neither \<^verbatim>\<open>Base64.decode\<close>
  nor \<^verbatim>\<open>Base64.encode\<close>: a payload that is no base64 text is stored, not emptied, and
  cannot make \<^verbatim>\<open>parse\<close> fail.
\<close>

theorem body_kept_as_read:
  assumes "\<forall>l \<in> set ls. CHR 0x0A \<notin> set l \<and>
             \<not> js_includes (decoded_line L (Some enc) (l @ [CHR 0x0A])) b"
    and "CHR 0x0A \<notin> set c" and "js_includes (decoded_line L (Some enc) (c @ [CHR 0x0A])) b"
  shows "read_body L enc b (concat (map (\<lambda>l. l @ [CHR 0x0A]) ls) @ c @ [CHR 0x0A] @ rest) acc
           = Inr (acc @ concat (map (\<lambda>l. decoded_line L (Some enc) (l @ [CHR 0x0A])) ls), rest) \<and>
         decoded_line L (Some ''base64'') raw = js_trim raw \<and>
         parse (L\<lparr>Base64_decode := dec, Base64_encode := en\<rparr>) htmlOnly pd mhtml
           = parse L htmlOnly pd mhtml"
  using read_body_lines [OF assms]
  by (simp add: decoded_line_def parse_def run_no_base64)

theorem body_kept_as_read_witness:
  "Base64_decode node ''!!!!'' = None \<and>
   read_body node ''base64'' ''B'' (''!!!!'' @ [CHR 0x0A] @ ''--B--'' @ [CHR 0x0A] @ ''next'') []
     = Inr (''!!!!'', ''next'')"
proof -
  have 1: "\<forall>l \<in> set [''!!!!'']. CHR 0x0A \<notin> set l \<and>
             \<not> js_includes (decoded_line node (Some ''base64'') (l @ [CHR 0x0A])) ''B''"
    by code_simp
  have 2: "CHR 0x0A \<notin> set ''--B--''" by simp
  have 3: "js_includes (decoded_line node (Some ''base64'') (''--B--'' @ [CHR 0x0A])) ''B''"
    by code_simp
  have 4: "decoded_line node (Some ''base64'') (''!!!!'' @ [CHR 0x0A]) = ''!!!!''"
    by code_simp
  have 5: "Base64_decode node ''!!!!'' = None" by code_simp
  have 6: "read_body node ''base64'' ''B''
             (''!!!!'' @ [CHR 0x0A] @ ''--B--'' @ [CHR 0x0A] @ ''next'') []
           = Inr (''!!!!'', ''next'')"
    using body_kept_as_read [OF 1 2 3, of "''next''" "[]", THEN conjunct1] 4
    by simp
  from 5 6 show ?thesis by (rule conjI)
qed

text \<open>
  The archive \<open>broken\<close>: its image part is no base64 text. \<^verbatim>\<open>parse\<close> keeps the part with
  the body \<^verbatim>\<open>!!!!\<close>, not with an empty body; \<^verbatim>\<open>convert\<close> does not leave the reference in
  the inline style as it is but throws, since \<^verbatim>\<open>Base64.decode\<close> is called outside the
  \<^verbatim>\<open>try\<close> block.
\<close>

theorem broken_payload_counterexample:
  "Base64_decode node ''!!!!'' = None \<and>
   parse node False (parseDOM (fixed_page broken_page)) broken = Inr (Inl broken_archive) \<and>
   map_option data (map_of (media broken_archive) ''http://e.com/i.png'') = Some ''!!!!'' \<and>
   convert_text node (fixed_page broken_page) False 3 broken = Inl InvalidCharacterError"
  by code_simp

end
